theory Spec2Isabelle
  imports Complex_Main "HOL-Library.AList" "HOL-Library.Monad_Syntax"
begin

section \<open>The event broadcaster (apps/server/src/ws/broadcaster.ts)\<close>

text \<open>
  The class \<open>EventBroadcaster\<close> keeps two JavaScript \<open>Map\<close>s, the client registry and the
  message queue. A \<open>Map\<close> iterates in insertion order, \<open>set\<close> on a present key keeps the
  key's position and \<open>delete\<close> removes the entry: an association list with
  \<open>AList.update\<close>, \<open>AList.delete\<close> and \<open>map_of\<close>. A \<open>Set<string>\<close> is the list of its
  members in insertion order.

  What the class does beyond returning a value is made explicit in the state:
  \<^item> \<open>emitted\<close> is the log of the \<open>this.emit(...)\<close> calls, oldest first;
  \<open>now\<close> is the clock \<open>new Date()\<close> reads (held fixed during one operation);
  \<^item> a \<open>WebSocket\<close> is its \<open>readyState\<close>, whether its \<open>send\<close> and \<open>close\<close> raise, and
  the messages handed to \<open>send\<close>;
  \<^item> a payload (\<open>data: any\<close>) is either a value \<open>JSON.stringify\<close> renders, kept as its
  rendering, or a value it raises on (a cyclic object, a BigInt);
  \<^item> \<open>generateId()\<close> reads the clock and \<open>Math.random()\<close>: the identifier it returns is an
  argument of the operations that call it.
  The options \<open>maxQueueSize\<close> and \<open>maxRetries\<close> are JavaScript numbers that the constructor
  stores unchecked: a \<open>jsnumber\<close> is a finite number (a rational, which every finite double
  is), an infinity or \<open>NaN\<close>. The size of a \<open>Map\<close> and \<open>retryCount\<close>, which starts at 0 and
  is only incremented, are natural numbers; \<open>countGe n x\<close> is the test \<open>n >= x\<close> of such a
  count against a number, \<open>countLe n x\<close> is \<open>n <= x\<close>.
\<close>

datatype jsnumber = Num rat | PosInfinity | NegInfinity | NaN

definition countGe :: "nat \<Rightarrow> jsnumber \<Rightarrow> bool" where
  "countGe n x =
     (case x of Num r \<Rightarrow> r \<le> of_nat n | PosInfinity \<Rightarrow> False | NegInfinity \<Rightarrow> True
      | NaN \<Rightarrow> False)"

definition countLe :: "nat \<Rightarrow> jsnumber \<Rightarrow> bool" where
  "countLe n x =
     (case x of Num r \<Rightarrow> of_nat n \<le> r | PosInfinity \<Rightarrow> True | NegInfinity \<Rightarrow> False
      | NaN \<Rightarrow> False)"

datatype ready_state = CONNECTING | OPEN | CLOSING | CLOSED

datatype jsdata = Json string | Unserializable

record message =
  msg_type :: string
  msg_data :: string
  msg_timestamp :: nat

record websocket =
  readyState :: ready_state
  sendThrows :: bool
  closeThrows :: bool
  sent :: "message list"

record client_metadata =
  cm_id :: string
  joinedAt :: nat
  lastMessageAt :: "nat option"
  tags :: "string list"

record client =
  ws :: websocket
  metadata :: client_metadata

record queued_broadcast =
  b_id :: string
  b_type :: string
  b_data :: jsdata
  b_timestamp :: "nat option"
  targetClients :: "string list"
  retryCount :: nat
  b_maxRetries :: jsnumber

datatype event =
    ClientConnected string client_metadata
  | ClientDisconnected string
  | BroadcastQueueFull string string
  | BroadcastNoTargets string string
  | BroadcastQueued string string nat
  | BroadcastCompleted string string nat
  | BroadcastMaxRetriesExceeded string string nat
  | MessageSent string string
  | MessageError string string
  | QueueProcessingStarted
  | QueueProcessingStopped
  | QueueCleared nat
  | ClientCloseError string
  | BroadcasterClosed

record broadcaster =
  clients :: "(string \<times> client) list"
  messageQueue :: "(string \<times> queued_broadcast) list"
  maxQueueSize :: jsnumber
  maxRetries :: jsnumber
  queueProcessingInterval :: "nat option"
  emitted :: "event list"
  now :: nat

definition emit :: "event \<Rightarrow> broadcaster \<Rightarrow> broadcaster" where
  "emit e s = s\<lparr>emitted := emitted s @ [e]\<rparr>"

text \<open>\<open>new EventBroadcaster(options)\<close>: \<open>options.maxQueueSize || 1000\<close> and
  \<open>options.maxRetries || 3\<close> replace an absent option and the falsy numbers 0 and \<open>NaN\<close>
  alike; every other number is kept, a fraction, a negative number or an infinity as
  well.\<close>

definition orDefault :: "jsnumber option \<Rightarrow> jsnumber \<Rightarrow> jsnumber" where
  "orDefault opt d =
     (case opt of None \<Rightarrow> d | Some x \<Rightarrow> if x = Num 0 \<or> x = NaN then d else x)"

definition newBroadcaster :: "jsnumber option \<Rightarrow> jsnumber option \<Rightarrow> nat \<Rightarrow> broadcaster" where
  "newBroadcaster optMaxQueueSize optMaxRetries clock =
     \<lparr>clients = [], messageQueue = [],
      maxQueueSize = orDefault optMaxQueueSize (Num 1000),
      maxRetries = orDefault optMaxRetries (Num 3),
      queueProcessingInterval = None, emitted = [], now = clock\<rparr>"

text \<open>\<open>new Set(tags)\<close>: the members in order of first occurrence.\<close>

definition newSet :: "string list \<Rightarrow> string list" where
  "newSet xs = rev (remdups (rev xs))"

definition registerClient :: "string \<Rightarrow> websocket \<Rightarrow> string list option \<Rightarrow> broadcaster \<Rightarrow> broadcaster" where
  "registerClient ident sock optTags s =
     (let md = \<lparr>cm_id = ident, joinedAt = now s, lastMessageAt = None,
                tags = (case optTags of Some ts \<Rightarrow> newSet ts | None \<Rightarrow> [])\<rparr>
      in emit (ClientConnected ident md)
           (s\<lparr>clients := AList.update ident \<lparr>ws = sock, metadata = md\<rparr> (clients s)\<rparr>))"

definition unregisterClient :: "string \<Rightarrow> broadcaster \<Rightarrow> bool \<times> broadcaster" where
  "unregisterClient ident s =
     (case map_of (clients s) ident of
        None \<Rightarrow> (False, s)
      | Some c \<Rightarrow>
          (True, emit (ClientDisconnected ident) (s\<lparr>clients := AList.delete ident (clients s)\<rparr>)))"

definition getClient :: "string \<Rightarrow> broadcaster \<Rightarrow> websocket option" where
  "getClient ident s = map_option ws (map_of (clients s) ident)"

definition getClientIds :: "broadcaster \<Rightarrow> string list" where
  "getClientIds s = map fst (clients s)"

definition getClientCount :: "broadcaster \<Rightarrow> nat" where
  "getClientCount s = length (clients s)"


definition setAdd :: "string \<Rightarrow> string list \<Rightarrow> string list" where
  "setAdd x xs = (if x \<in> set xs then xs else xs @ [x])"

definition addClientTag :: "string \<Rightarrow> string \<Rightarrow> broadcaster \<Rightarrow> bool \<times> broadcaster" where
  "addClientTag clientId tag s =
     (case map_of (clients s) clientId of
        None \<Rightarrow> (False, s)
      | Some c \<Rightarrow>
          (True, s\<lparr>clients := AList.update clientId
                     (c\<lparr>metadata := (metadata c)\<lparr>tags := setAdd tag (tags (metadata c))\<rparr>\<rparr>)
                     (clients s)\<rparr>))"

definition removeClientTag :: "string \<Rightarrow> string \<Rightarrow> broadcaster \<Rightarrow> bool \<times> broadcaster" where
  "removeClientTag clientId tag s =
     (case map_of (clients s) clientId of
        None \<Rightarrow> (False, s)
      | Some c \<Rightarrow>
          (tag \<in> set (tags (metadata c)),
           s\<lparr>clients := AList.update clientId
                     (c\<lparr>metadata := (metadata c)\<lparr>tags := removeAll tag (tags (metadata c))\<rparr>\<rparr>)
                     (clients s)\<rparr>))"

definition getClientsByTag :: "string \<Rightarrow> broadcaster \<Rightarrow> string list" where
  "getClientsByTag tag s =
     map fst (filter (\<lambda>(clientId, c). tag \<in> set (tags (metadata c))) (clients s))"

text \<open>\<open>addToQueue\<close>: refused at capacity, otherwise \<open>messageQueue.set\<close> and the
  \<open>broadcast:queued\<close> notification.\<close>

definition getQueueSize :: "broadcaster \<Rightarrow> nat" where
  "getQueueSize s = length (messageQueue s)"

definition addToQueue :: "queued_broadcast \<Rightarrow> broadcaster \<Rightarrow> bool \<times> broadcaster" where
  "addToQueue bcast s =
     (if countGe (getQueueSize s) (maxQueueSize s) then (False, s)
      else (True,
            emit (BroadcastQueued (b_id bcast) (b_type bcast)
                    (length (targetClients bcast)))
              (s\<lparr>messageQueue := AList.update (b_id bcast) bcast (messageQueue s)\<rparr>)))"

text \<open>\<open>broadcast\<close>, \<open>broadcastToClients\<close> and \<open>broadcastToTag\<close>; \<open>broadcastId\<close> is what
  \<open>generateId()\<close> returned. The object literal they queue has no \<open>timestamp\<close>.\<close>

definition broadcast :: "string \<Rightarrow> string \<Rightarrow> jsdata \<Rightarrow> broadcaster \<Rightarrow> string \<times> broadcaster" where
  "broadcast broadcastId type data s =
     (let targets = newSet (getClientIds s);
          (queued, s1) =
            addToQueue \<lparr>b_id = broadcastId, b_type = type, b_data = data, b_timestamp = None,
                        targetClients = targets, retryCount = 0, b_maxRetries = maxRetries s\<rparr> s
      in (broadcastId,
          if \<not> queued then emit (BroadcastQueueFull broadcastId type) s1 else s1))"

definition broadcastToClients :: "string \<Rightarrow> string list \<Rightarrow> string \<Rightarrow> jsdata \<Rightarrow> broadcaster \<Rightarrow> string \<times> broadcaster" where
  "broadcastToClients broadcastId clientIds type data s =
     (let targets = newSet (filter (\<lambda>i. map_of (clients s) i \<noteq> None) clientIds)
      in if length targets = 0
         then (broadcastId, emit (BroadcastNoTargets broadcastId type) s)
         else (let (queued, s1) =
                     addToQueue \<lparr>b_id = broadcastId, b_type = type, b_data = data,
                                 b_timestamp = None, targetClients = targets, retryCount = 0,
                                 b_maxRetries = maxRetries s\<rparr> s
               in (broadcastId,
                   if \<not> queued then emit (BroadcastQueueFull broadcastId type) s1 else s1)))"

definition broadcastToTag :: "string \<Rightarrow> string \<Rightarrow> string \<Rightarrow> jsdata \<Rightarrow> broadcaster \<Rightarrow> string \<times> broadcaster" where
  "broadcastToTag broadcastId tag type data s =
     broadcastToClients broadcastId (getClientsByTag tag s) type data s"

text \<open>\<open>sendToClient\<close>: false for an unknown id; inside the \<open>try\<close>, \<open>JSON.stringify\<close> and
  \<open>ws.send\<close> can raise, which the \<open>catch\<close> turns into \<open>message:error\<close> and false; a socket
  that is not open gives false with no notification.\<close>

definition sendToClient :: "string \<Rightarrow> string \<Rightarrow> jsdata \<Rightarrow> broadcaster \<Rightarrow> bool \<times> broadcaster" where
  "sendToClient clientId type data s =
     (case map_of (clients s) clientId of
        None \<Rightarrow> (False, s)
      | Some c \<Rightarrow>
          (case data of
             Unserializable \<Rightarrow> (False, emit (MessageError clientId type) s)
           | Json text \<Rightarrow>
               if readyState (ws c) = OPEN then
                 if sendThrows (ws c) then (False, emit (MessageError clientId type) s)
                 else (True,
                       emit (MessageSent clientId type)
                         (s\<lparr>clients := AList.update clientId
                              (c\<lparr>ws := (ws c)\<lparr>sent := sent (ws c) @
                                      [\<lparr>msg_type = type, msg_data = text, msg_timestamp = now s\<rparr>]\<rparr>,
                                 metadata := (metadata c)\<lparr>lastMessageAt := Some (now s)\<rparr>\<rparr>)
                              (clients s)\<rparr>))
               else (False, s)))"

definition startQueueProcessing :: "nat \<Rightarrow> broadcaster \<Rightarrow> broadcaster" where
  "startQueueProcessing intervalMs s =
     (case queueProcessingInterval s of
        Some t \<Rightarrow> s
      | None \<Rightarrow> emit QueueProcessingStarted (s\<lparr>queueProcessingInterval := Some intervalMs\<rparr>))"

definition stopQueueProcessing :: "broadcaster \<Rightarrow> broadcaster" where
  "stopQueueProcessing s =
     (case queueProcessingInterval s of
        Some t \<Rightarrow> emit QueueProcessingStopped (s\<lparr>queueProcessingInterval := None\<rparr>)
      | None \<Rightarrow> s)"

text \<open>\<open>processQueue\<close>. The inner \<open>forEach\<close> over \<open>targetClients\<close> threads \<open>sentCount\<close>,
  \<open>failedCount\<close> and the state. The outer \<open>forEach\<close> over \<open>messageQueue\<close> visits the keys in
  order, each entry as it is when it is reached; its callback is \<open>processBroadcast\<close>, which
  also threads \<open>failedBroadcasts\<close>. The last loop deletes the failed broadcasts.\<close>

fun sendToTargets :: "string list \<Rightarrow> string \<Rightarrow> jsdata \<Rightarrow> nat \<times> nat \<times> broadcaster \<Rightarrow> nat \<times> nat \<times> broadcaster" where
  "sendToTargets [] type data acc = acc"
| "sendToTargets (clientId # rest) type data (sentCount, failedCount, s) =
     (let (success, s1) = sendToClient clientId type data s
      in if success then sendToTargets rest type data (Suc sentCount, failedCount, s1)
         else sendToTargets rest type data (sentCount, Suc failedCount, s1))"

definition processBroadcast :: "string \<Rightarrow> string list \<times> broadcaster \<Rightarrow> string list \<times> broadcaster" where
  "processBroadcast broadcastId acc =
     (let (failedBroadcasts, s) = acc in
      case map_of (messageQueue s) broadcastId of
        None \<Rightarrow> (failedBroadcasts, s)
      | Some bcast \<Rightarrow>
          (let (sentCount, failedCount, s1) =
                 sendToTargets (targetClients bcast) (b_type bcast) (b_data bcast) (0, 0, s)
           in if failedCount > 0 then
                (let updated = bcast\<lparr>retryCount := Suc (retryCount bcast)\<rparr>;
                     s2 = s1\<lparr>messageQueue := AList.update broadcastId updated (messageQueue s1)\<rparr>
                 in if countGe (retryCount updated) (b_maxRetries updated)
                    then (failedBroadcasts @ [broadcastId],
                          emit (BroadcastMaxRetriesExceeded broadcastId (b_type bcast) failedCount) s2)
                    else (failedBroadcasts, s2))
              else (failedBroadcasts,
                    emit (BroadcastCompleted broadcastId (b_type bcast) sentCount)
                      (s1\<lparr>messageQueue := AList.delete broadcastId (messageQueue s1)\<rparr>))))"

definition processQueue :: "broadcaster \<Rightarrow> broadcaster" where
  "processQueue s =
     (let (failedBroadcasts, s1) = fold processBroadcast (map fst (messageQueue s)) ([], s)
      in s1\<lparr>messageQueue := fold AList.delete failedBroadcasts (messageQueue s1)\<rparr>)"

definition clearQueue :: "broadcaster \<Rightarrow> broadcaster" where
  "clearQueue s = emit (QueueCleared (getQueueSize s)) (s\<lparr>messageQueue := []\<rparr>)"

text \<open>\<open>closeAll\<close>: every open socket gets \<open>close(code, reason)\<close>, a raise becomes
  \<open>client:close-error\<close>; then \<open>stopQueueProcessing\<close>, \<open>clients.clear()\<close> and
  \<open>broadcaster:closed\<close>. The sockets leave the state with the registry, so of the first loop
  only the notifications remain.\<close>

definition closeErrors :: "(string \<times> client) list \<Rightarrow> event list" where
  "closeErrors cs =
     map (\<lambda>(clientId, c). ClientCloseError clientId)
       (filter (\<lambda>(clientId, c). readyState (ws c) = OPEN \<and> closeThrows (ws c)) cs)"

definition closeAll :: "nat \<Rightarrow> string \<Rightarrow> broadcaster \<Rightarrow> broadcaster" where
  "closeAll code reason s =
     (let s1 = s\<lparr>emitted := emitted s @ closeErrors (clients s)\<rparr>;
          s2 = stopQueueProcessing s1
      in emit BroadcasterClosed (s2\<lparr>clients := []\<rparr>))"

text \<open>The calls the class can receive, for statements about every sequence of them. Beside
  the public methods: the timer firing (\<open>processQueue\<close>, when the interval is set), the
  clock advancing, and a registered socket changing its state from outside.\<close>

datatype operation =
    RegisterClient string websocket "string list option"
  | UnregisterClient string
  | AddClientTag string string
  | RemoveClientTag string string
  | Broadcast string string jsdata
  | BroadcastToClients string "string list" string jsdata
  | BroadcastToTag string string string jsdata
  | SendToClient string string jsdata
  | StartQueueProcessing nat
  | StopQueueProcessing
  | TimerFires
  | ClearQueue
  | CloseAll nat string
  | ClockAdvances nat
  | SocketChanges string ready_state bool

fun applyOp :: "operation \<Rightarrow> broadcaster \<Rightarrow> broadcaster" where
  "applyOp (RegisterClient i w t) s = registerClient i w t s"
| "applyOp (UnregisterClient i) s = snd (unregisterClient i s)"
| "applyOp (AddClientTag i t) s = snd (addClientTag i t s)"
| "applyOp (RemoveClientTag i t) s = snd (removeClientTag i t s)"
| "applyOp (Broadcast b t d) s = snd (broadcast b t d s)"
| "applyOp (BroadcastToClients b ids t d) s = snd (broadcastToClients b ids t d s)"
| "applyOp (BroadcastToTag b g t d) s = snd (broadcastToTag b g t d s)"
| "applyOp (SendToClient i t d) s = snd (sendToClient i t d s)"
| "applyOp (StartQueueProcessing n) s = startQueueProcessing n s"
| "applyOp StopQueueProcessing s = stopQueueProcessing s"
| "applyOp TimerFires s = (if queueProcessingInterval s = None then s else processQueue s)"
| "applyOp ClearQueue s = clearQueue s"
| "applyOp (CloseAll c r) s = closeAll c r s"
| "applyOp (ClockAdvances d) s = s\<lparr>now := now s + d\<rparr>"
| "applyOp (SocketChanges i r t) s =
     (case map_of (clients s) i of
        None \<Rightarrow> s
      | Some c \<Rightarrow>
          s\<lparr>clients := AList.update i (c\<lparr>ws := (ws c)\<lparr>readyState := r, sendThrows := t\<rparr>\<rparr>) (clients s)\<rparr>)"

definition run :: "operation list \<Rightarrow> broadcaster \<Rightarrow> broadcaster" where
  "run ops s = fold applyOp ops s"

section \<open>Observations on a state\<close>

text \<open>
  What a sweep of the delivery loop can see of the registry and what it leaves behind, as
  functions of the state. \<open>sinkState\<close> is what \<open>sendToClient\<close> reads of a client (the
  socket's \<open>readyState\<close> and whether its \<open>send\<close> raises); \<open>deliverable\<close> is the case in which
  \<open>sendToClient\<close> returns true, \<open>sendNotice\<close> the notification it emits, \<open>envelope\<close> the
  message it hands to the socket and \<open>inbox\<close> the messages a registered client's socket has
  been handed. \<open>config\<close> collects what no send and no sweep changes.

  For a queued broadcast, \<open>failures\<close> and \<open>successes\<close> are the two tallies of one sweep,
  \<open>retried\<close> is the entry with its \<open>retryCount\<close> incremented, \<open>exhausted\<close> says that the
  incremented count reaches \<open>maxRetries\<close>; \<open>sweepNotices\<close> and \<open>sweepDeliveries\<close> are the
  notifications and the messages one sweep produces for one entry. \<open>queueInv\<close> is the
  invariant of the queue: its keys are distinct (it is a \<open>Map\<close>) and its size is within
  the capacity that the test of \<open>addToQueue\<close> enforces, \<open>withinCapacity\<close>: for a finite
  \<open>maxQueueSize\<close> the least natural number that is at least \<open>maxQueueSize\<close>. \<open>sweeps ts\<close> is the timer firing at the times \<open>ts\<close>, one sweep each.
\<close>

definition sinkState :: "broadcaster \<Rightarrow> string \<Rightarrow> (ready_state \<times> bool) option" where
  "sinkState s clientId =
     map_option (\<lambda>c. (readyState (ws c), sendThrows (ws c))) (map_of (clients s) clientId)"

definition deliverable :: "broadcaster \<Rightarrow> jsdata \<Rightarrow> string \<Rightarrow> bool" where
  "deliverable s data clientId =
     (case map_of (clients s) clientId of
        None \<Rightarrow> False
      | Some c \<Rightarrow> data \<noteq> Unserializable \<and> readyState (ws c) = OPEN \<and> \<not> sendThrows (ws c))"

definition sendNotice :: "broadcaster \<Rightarrow> string \<Rightarrow> jsdata \<Rightarrow> string \<Rightarrow> event list" where
  "sendNotice s type data clientId =
     (case map_of (clients s) clientId of
        None \<Rightarrow> []
      | Some c \<Rightarrow>
          (case data of
             Unserializable \<Rightarrow> [MessageError clientId type]
           | Json text \<Rightarrow>
               if readyState (ws c) = OPEN
               then (if sendThrows (ws c) then [MessageError clientId type]
                     else [MessageSent clientId type])
               else []))"

definition inbox :: "broadcaster \<Rightarrow> string \<Rightarrow> message list" where
  "inbox s clientId = (case map_of (clients s) clientId of None \<Rightarrow> [] | Some c \<Rightarrow> sent (ws c))"

definition envelope :: "string \<Rightarrow> jsdata \<Rightarrow> nat \<Rightarrow> message" where
  "envelope type data t =
     \<lparr>msg_type = type, msg_data = (case data of Json text \<Rightarrow> text | Unserializable \<Rightarrow> []),
      msg_timestamp = t\<rparr>"

definition config :: "broadcaster \<Rightarrow> (string \<Rightarrow> (ready_state \<times> bool) option) \<times> nat \<times> jsnumber \<times> jsnumber \<times> nat option" where
  "config s = (sinkState s, now s, maxQueueSize s, maxRetries s, queueProcessingInterval s)"

definition failures :: "broadcaster \<Rightarrow> queued_broadcast \<Rightarrow> nat" where
  "failures s b = length (filter (\<lambda>c. \<not> deliverable s (b_data b) c) (targetClients b))"

definition successes :: "broadcaster \<Rightarrow> queued_broadcast \<Rightarrow> nat" where
  "successes s b = length (filter (deliverable s (b_data b)) (targetClients b))"

definition retried :: "string \<times> queued_broadcast \<Rightarrow> string \<times> queued_broadcast" where
  "retried p = (fst p, (snd p)\<lparr>retryCount := Suc (retryCount (snd p))\<rparr>)"

definition exhausted :: "broadcaster \<Rightarrow> string \<times> queued_broadcast \<Rightarrow> bool" where
  "exhausted s p =
     (failures s (snd p) > 0 \<and> countGe (Suc (retryCount (snd p))) (b_maxRetries (snd p)))"

definition sweepNotices :: "broadcaster \<Rightarrow> string \<times> queued_broadcast \<Rightarrow> event list" where
  "sweepNotices s p =
     concat (map (sendNotice s (b_type (snd p)) (b_data (snd p))) (targetClients (snd p))) @
     (if failures s (snd p) = 0
      then [BroadcastCompleted (fst p) (b_type (snd p)) (successes s (snd p))]
      else if exhausted s p
           then [BroadcastMaxRetriesExceeded (fst p) (b_type (snd p)) (failures s (snd p))]
           else [])"

definition sweepDeliveries :: "broadcaster \<Rightarrow> string \<Rightarrow> string \<times> queued_broadcast \<Rightarrow> message list" where
  "sweepDeliveries s c p =
     (if deliverable s (b_data (snd p)) c
      then replicate (count_list (targetClients (snd p)) c)
             (envelope (b_type (snd p)) (b_data (snd p)) (now s))
      else [])"

definition withinCapacity :: "nat \<Rightarrow> jsnumber \<Rightarrow> bool" where
  "withinCapacity n x =
     (case x of Num r \<Rightarrow> int n \<le> max 0 \<lceil>r\<rceil> | PosInfinity \<Rightarrow> True | NegInfinity \<Rightarrow> n = 0
      | NaN \<Rightarrow> True)"

definition queueInv :: "broadcaster \<Rightarrow> bool" where
  "queueInv s =
     (distinct (map fst (messageQueue s)) \<and> withinCapacity (getQueueSize s) (maxQueueSize s))"

definition sweeps :: "nat list \<Rightarrow> broadcaster \<Rightarrow> broadcaster" where
  "sweeps ts s = fold (\<lambda>t s. processQueue (s\<lparr>now := t\<rparr>)) ts s"

text \<open>Example inputs: an open socket that accepts every message and a queue entry;
  \<open>leftState\<close>, where the only target of a queued broadcast has unregistered; and
  \<open>threeClients\<close>, three registered clients, the second with a closed socket, and a
  broadcast to all of them; \<open>twoClients\<close>, the same without the second client.\<close>

definition openSocket :: websocket where
  "openSocket = \<lparr>readyState = OPEN, sendThrows = False, closeThrows = False, sent = []\<rparr>"

definition exampleBroadcast :: "string \<Rightarrow> string list \<Rightarrow> queued_broadcast" where
  "exampleBroadcast broadcastId targets =
     \<lparr>b_id = broadcastId, b_type = ''event'', b_data = Json ''{}'', b_timestamp = None,
      targetClients = targets, retryCount = 0, b_maxRetries = Num 3\<rparr>"

definition leftState :: broadcaster where
  "leftState =
     run [RegisterClient ''c1'' openSocket None, Broadcast ''b1'' ''event'' (Json ''{}''),
          UnregisterClient ''c1'']
       (newBroadcaster None None 0)"

definition threeClients :: broadcaster where
  "threeClients =
     run [RegisterClient ''c1'' openSocket None,
          RegisterClient ''c2'' (openSocket\<lparr>readyState := CLOSED\<rparr>) None,
          RegisterClient ''c3'' openSocket None,
          Broadcast ''b1'' ''event'' (Json ''{}'')]
       (newBroadcaster None None 0)"

definition twoClients :: broadcaster where
  "twoClients =
     run [RegisterClient ''c1'' openSocket None,
          RegisterClient ''c3'' openSocket None,
          Broadcast ''b1'' ''event'' (Json ''{}'')]
       (newBroadcaster None None 0)"

section \<open>The risk engine (class RiskEngine)\<close>

text \<open>
  \<open>evaluateEvent\<close> scores an event by up to three weighted factors. JavaScript numbers are
  IEEE 754 doubles; here they are rationals, so the arithmetic is exact (the source's sums
  and quotients are within a few units of \<open>10\<^sup>-\<^sup>1\<^sup>6\<close> of these values, far from every
  threshold the statements below compare with), and \<open>NaN\<close> and the infinities are not
  amounts. A \<open>description\<close> is the factor's template with the argument it renders; the
  \<open>timestamp\<close> of the result is the clock's value, an argument. \<open>toLowerCase\<close> maps the
  ASCII capitals, which is what it does on ASCII text.
\<close>

datatype risk_level = MINIMAL | LOW | MEDIUM | HIGH | CRITICAL

datatype description =
    AmountDescription rat
  | ProgramDescription string
  | EventTypeDescription string

record risk_factor =
  rf_name :: string
  rf_weight :: rat
  rf_value :: rat
  rf_description :: description

record risk_score =
  rs_score :: rat
  rs_level :: risk_level
  rs_factors :: "risk_factor list"
  rs_timestamp :: nat

record event_data =
  signature :: string
  timestamp :: nat
  amount :: "rat option"
  programId :: "string option"
  eventType :: string
  sender :: "string option"
  receiver :: "string option"

definition MAX_SAFE_AMOUNT :: rat where
  "MAX_SAFE_AMOUNT = 1000000000"

definition SUSPICIOUS_PROGRAMS :: "string list" where
  "SUSPICIOUS_PROGRAMS = []"

definition lowerChar :: "char \<Rightarrow> char" where
  "lowerChar c =
     (if 65 \<le> (of_char c :: nat) \<and> (of_char c :: nat) \<le> 90
      then char_of ((of_char c :: nat) + 32) else c)"

definition toLowerCase :: "string \<Rightarrow> string" where
  "toLowerCase str = map lowerChar str"

text \<open>\<open>evaluateAmount\<close>: the argument is absent (\<open>undefined\<close> or \<open>null\<close>) or a number.\<close>

definition evaluateAmount :: "rat option \<Rightarrow> risk_factor option" where
  "evaluateAmount amountArg =
     (case amountArg of
        None \<Rightarrow> None
      | Some a \<Rightarrow>
          Some \<lparr>rf_name = ''Amount Risk'', rf_weight = 3 / 10,
                rf_value = (if a = 0 then 1 / 10
                            else if a > MAX_SAFE_AMOUNT then 8 / 10
                            else if a > MAX_SAFE_AMOUNT * (5 / 10) then 5 / 10
                            else 1 / 10),
                rf_description = AmountDescription a\<rparr>)"

definition evaluateProgram :: "string \<Rightarrow> risk_factor option" where
  "evaluateProgram pid =
     (if pid = [] then None
      else Some \<lparr>rf_name = ''Program Risk'', rf_weight = 35 / 100,
                 rf_value = (if pid \<in> set SUSPICIOUS_PROGRAMS then 9 / 10
                             else if toLowerCase pid = ''unknown'' then 7 / 10
                             else 2 / 10),
                 rf_description = ProgramDescription pid\<rparr>)"

definition evaluateEventType :: "string \<Rightarrow> risk_factor" where
  "evaluateEventType ety =
     \<lparr>rf_name = ''Event Type Risk'', rf_weight = 35 / 100,
      rf_value = (let l = toLowerCase ety in
                  if l = ''transfer'' then 2 / 10
                  else if l = ''swap'' then 3 / 10
                  else if l = ''liquidation'' then 6 / 10
                  else if l = ''flash_loan'' then 8 / 10
                  else if l = ''unknown'' then 5 / 10
                  else 3 / 10),
      rf_description = EventTypeDescription ety\<rparr>"

definition scoreToLevel :: "rat \<Rightarrow> risk_level" where
  "scoreToLevel score =
     (if score < 2 / 10 then MINIMAL
      else if score < 4 / 10 then LOW
      else if score < 6 / 10 then MEDIUM
      else if score < 8 / 10 then HIGH
      else CRITICAL)"

text \<open>The three blocks of \<open>evaluateEvent\<close> that add a factor when there is one: \<open>factors\<close>,
  \<open>totalWeightedScore\<close> and \<open>totalWeight\<close> are threaded through \<open>addFactor\<close>.\<close>

definition addFactor :: "risk_factor option \<Rightarrow> risk_factor list \<times> rat \<times> rat \<Rightarrow> risk_factor list \<times> rat \<times> rat" where
  "addFactor factor acc =
     (case factor of
        None \<Rightarrow> acc
      | Some f \<Rightarrow>
          (let (factors, totalWeightedScore, totalWeight) = acc
           in (factors @ [f], totalWeightedScore + rf_value f * rf_weight f,
               totalWeight + rf_weight f)))"

definition evaluateEvent :: "event_data \<Rightarrow> nat \<Rightarrow> risk_score" where
  "evaluateEvent eventData clock =
     (let amountFactor = evaluateAmount (Some (case amount eventData of None \<Rightarrow> 0 | Some a \<Rightarrow> a));
          programFactor = evaluateProgram (case programId eventData of None \<Rightarrow> [] | Some p \<Rightarrow> p);
          eventTypeFactor = Some (evaluateEventType (eventType eventData));
          (factors, totalWeightedScore, totalWeight) =
            addFactor eventTypeFactor (addFactor programFactor (addFactor amountFactor ([], 0, 0)));
          score = (if totalWeight > 0 then totalWeightedScore / totalWeight else 0);
          normalizedScore = min (max score 0) 1
      in \<lparr>rs_score = normalizedScore, rs_level = scoreToLevel normalizedScore,
          rs_factors = factors, rs_timestamp = clock\<rparr>)"

text \<open>The score as the spec words it (section 4.4), to compare with \<open>evaluateEvent\<close>: the
  weighted mean over the factors that are present, an event without \<open>amount\<close> having no
  amount factor. It differs from \<open>evaluateEvent\<close> in the argument of \<open>evaluateAmount\<close>
  only.\<close>

definition evaluateEvent_spec :: "event_data \<Rightarrow> nat \<Rightarrow> risk_score" where
  "evaluateEvent_spec eventData clock =
     (let amountFactor = evaluateAmount (amount eventData);
          programFactor = evaluateProgram (case programId eventData of None \<Rightarrow> [] | Some p \<Rightarrow> p);
          eventTypeFactor = Some (evaluateEventType (eventType eventData));
          (factors, totalWeightedScore, totalWeight) =
            addFactor eventTypeFactor (addFactor programFactor (addFactor amountFactor ([], 0, 0)));
          score = (if totalWeight > 0 then totalWeightedScore / totalWeight else 0);
          normalizedScore = min (max score 0) 1
      in \<lparr>rs_score = normalizedScore, rs_level = scoreToLevel normalizedScore,
          rs_factors = factors, rs_timestamp = clock\<rparr>)"

text \<open>Example input: the event of the spec's risk-scoring test.\<close>

definition flashLoanEvent :: event_data where
  "flashLoanEvent =
     \<lparr>signature = ''sig'', timestamp = 0, amount = Some 0, programId = Some ''unknown'',
      eventType = ''flash_loan'', sender = None, receiver = None\<rparr>"

section \<open>The event normalizer (class EventNormalizer)\<close>











datatype event_type =
    TRANSFER | TOKEN_TRANSFER | TOKEN_MINT | TOKEN_BURN | TOKEN_SWAP | NFT_TRANSFER | NFT_MINT
  | NFT_BURN | STAKE | UNSTAKE | VOTE | PROGRAM_INTERACTION | UNKNOWN

datatype status = Success | Failed | Pending



















section \<open>Lemmas on sending and sweeping\<close>

lemma deliverable_sinkState:
  "deliverable s d c = (d \<noteq> Unserializable \<and> sinkState s c = Some (OPEN, False))"
  by (auto simp: deliverable_def sinkState_def split: option.splits)

lemma sendNotice_sinkState:
  "sendNotice s ty d c =
     (case sinkState s c of
        None \<Rightarrow> []
      | Some st \<Rightarrow>
          (case d of
             Unserializable \<Rightarrow> [MessageError c ty]
           | Json text \<Rightarrow>
               if fst st = OPEN
               then (if snd st then [MessageError c ty] else [MessageSent c ty])
               else []))"
  by (simp add: sendNotice_def sinkState_def split: option.splits)

lemma config_deliverable: "config s' = config s \<Longrightarrow> deliverable s' = deliverable s"
  by (intro ext) (simp add: deliverable_sinkState config_def)

lemma config_sendNotice: "config s' = config s \<Longrightarrow> sendNotice s' = sendNotice s"
  by (intro ext) (simp add: sendNotice_sinkState config_def)

lemma config_now: "config s' = config s \<Longrightarrow> now s' = now s"
  by (simp add: config_def)

lemma sendToClient_success: "fst (sendToClient c ty d s) = deliverable s d c"
  by (auto simp: sendToClient_def deliverable_def split: option.splits jsdata.splits)

lemma sendToClient_queue: "messageQueue (snd (sendToClient c ty d s)) = messageQueue s"
  by (auto simp: sendToClient_def emit_def split: option.splits jsdata.splits)

lemma sendToClient_config: "config (snd (sendToClient c ty d s)) = config s"
  unfolding config_def
  by (auto simp: sendToClient_def emit_def sinkState_def update_conv' split: option.splits jsdata.splits)

lemma sendToClient_inbox:
  "inbox (snd (sendToClient c ty d s)) c' =
     inbox s c' @ (if c' = c \<and> deliverable s d c then [envelope ty d (now s)] else [])"
  by (auto simp: sendToClient_def emit_def deliverable_def inbox_def envelope_def update_conv'
      split: option.splits jsdata.splits)

lemma sendToClient_emitted:
  "emitted (snd (sendToClient c ty d s)) = emitted s @ sendNotice s ty d c"
  by (auto simp: sendToClient_def emit_def sendNotice_def split: option.splits jsdata.splits)

lemma sendToClient_keys: "map fst (clients (snd (sendToClient c ty d s))) = map fst (clients s)"
proof -
  have "map_of (clients s) c = Some cl \<Longrightarrow> c \<in> fst ` set (clients s)" for cl
    by (metis map_of_eq_None_iff option.distinct(1))
  then show ?thesis
    by (auto simp: sendToClient_def emit_def update_keys split: option.splits jsdata.splits)
qed

lemma sendToTargets_sent:
  "fst (sendToTargets ts ty d (sc, fc, s)) = sc + length (filter (deliverable s d) ts)"
proof (induction ts arbitrary: sc fc s)
  case Nil
  show ?case by simp
next
  case (Cons c ts)
  have "deliverable (snd (sendToClient c ty d s)) = deliverable s"
    by (rule config_deliverable) (rule sendToClient_config)
  then show ?case
    using Cons.IH sendToClient_success[of c ty d s]
    by (simp add: split_beta Let_def)
qed

lemma sendToTargets_failed:
  "fst (snd (sendToTargets ts ty d (sc, fc, s))) =
     fc + length (filter (\<lambda>c. \<not> deliverable s d c) ts)"
proof (induction ts arbitrary: sc fc s)
  case Nil
  show ?case by simp
next
  case (Cons c ts)
  have "deliverable (snd (sendToClient c ty d s)) = deliverable s"
    by (rule config_deliverable) (rule sendToClient_config)
  then show ?case
    using Cons.IH sendToClient_success[of c ty d s]
    by (simp add: split_beta Let_def)
qed

lemma sendToTargets_queue:
  "messageQueue (snd (snd (sendToTargets ts ty d (sc, fc, s)))) = messageQueue s"
  by (induction ts arbitrary: sc fc s) (simp_all add: split_beta Let_def sendToClient_queue)

lemma sendToTargets_config:
  "config (snd (snd (sendToTargets ts ty d (sc, fc, s)))) = config s"
  by (induction ts arbitrary: sc fc s) (simp_all add: split_beta Let_def sendToClient_config)

lemma sendToTargets_keys:
  "map fst (clients (snd (snd (sendToTargets ts ty d (sc, fc, s))))) = map fst (clients s)"
  by (induction ts arbitrary: sc fc s) (simp_all add: split_beta Let_def sendToClient_keys)

lemma sendToTargets_inbox:
  "inbox (snd (snd (sendToTargets ts ty d (sc, fc, s)))) c =
     inbox s c @ (if deliverable s d c then replicate (count_list ts c) (envelope ty d (now s)) else [])"
proof (induction ts arbitrary: sc fc s)
  case Nil
  show ?case by simp
next
  case (Cons a ts)
  have "deliverable (snd (sendToClient x ty d s)) = deliverable s" for x
    by (rule config_deliverable) (rule sendToClient_config)
  moreover have "now (snd (sendToClient x ty d s)) = now s" for x
    by (rule config_now) (rule sendToClient_config)
  ultimately show ?case
    by (simp add: split_beta Let_def Cons.IH sendToClient_inbox replicate_append_same)
qed

lemma sendToTargets_emitted:
  "emitted (snd (snd (sendToTargets ts ty d (sc, fc, s)))) =
     emitted s @ concat (map (sendNotice s ty d) ts)"
proof (induction ts arbitrary: sc fc s)
  case Nil
  show ?case by simp
next
  case (Cons a ts)
  have "sendNotice (snd (sendToClient a ty d s)) = sendNotice s"
    by (rule config_sendNotice) (rule sendToClient_config)
  then show ?case
    by (simp add: split_beta Let_def Cons.IH sendToClient_emitted)
qed

lemma config_failures: "config s' = config s \<Longrightarrow> failures s' = failures s"
  using config_deliverable[of s' s] by (intro ext) (simp add: failures_def)

lemma config_successes: "config s' = config s \<Longrightarrow> successes s' = successes s"
  using config_deliverable[of s' s] by (intro ext) (simp add: successes_def)

lemma config_exhausted: "config s' = config s \<Longrightarrow> exhausted s' = exhausted s"
  using config_failures[of s' s] by (intro ext) (simp add: exhausted_def)

lemma config_sweepNotices: "config s' = config s \<Longrightarrow> sweepNotices s' = sweepNotices s"
  using config_failures[of s' s] config_successes[of s' s] config_exhausted[of s' s]
    config_sendNotice[of s' s]
  by (intro ext) (simp add: sweepNotices_def)

lemma config_sweepDeliveries: "config s' = config s \<Longrightarrow> sweepDeliveries s' = sweepDeliveries s"
  using config_deliverable[of s' s] config_now[of s' s]
  by (intro ext) (simp add: sweepDeliveries_def)

lemma config_queue_update [simp]: "config (s\<lparr>messageQueue := q\<rparr>) = config s"
  by (simp add: config_def sinkState_def fun_eq_iff)

lemma config_emit [simp]: "config (emit e s) = config s"
  by (simp add: config_def sinkState_def emit_def fun_eq_iff)

lemma inbox_queue_update [simp]: "inbox (s\<lparr>messageQueue := q\<rparr>) = inbox s"
  by (intro ext) (simp add: inbox_def)

lemma inbox_emit [simp]: "inbox (emit e s) = inbox s"
  by (intro ext) (simp add: inbox_def emit_def)

lemma map_of_mid:
  "k \<notin> fst ` set pre \<Longrightarrow> map_of (pre @ (k, b) # rest) k = Some b"
  by (induction pre) auto

lemma update_mid:
  "k \<notin> fst ` set pre \<Longrightarrow> AList.update k v (pre @ (k, b) # rest) = pre @ (k, v) # rest"
  by (induction pre) auto

lemma delete_mid:
  "k \<notin> fst ` set pre \<Longrightarrow> k \<notin> fst ` set rest \<Longrightarrow> AList.delete k (pre @ (k, b) # rest) = pre @ rest"
  by (induction pre) auto

lemma processBroadcast_found:
  assumes found: "map_of (messageQueue s) k = Some b"
  shows "fst (processBroadcast k (f, s)) = f @ (if exhausted s (k, b) then [k] else [])"
    and "messageQueue (snd (processBroadcast k (f, s))) =
           (if failures s b > 0 then AList.update k (snd (retried (k, b))) (messageQueue s)
            else AList.delete k (messageQueue s))"
    and "config (snd (processBroadcast k (f, s))) = config s"
    and "inbox (snd (processBroadcast k (f, s))) c = inbox s c @ sweepDeliveries s c (k, b)"
    and "emitted (snd (processBroadcast k (f, s))) = emitted s @ sweepNotices s (k, b)"
proof -
  obtain sc fc s1 where r: "sendToTargets (targetClients b) (b_type b) (b_data b) (0, 0, s) = (sc, fc, s1)"
    by (metis prod_cases3)
  have fc: "fc = failures s b"
    using sendToTargets_failed[of "targetClients b" "b_type b" "b_data b" 0 0 s] r
    by (simp add: failures_def)
  have sc: "sc = successes s b"
    using sendToTargets_sent[of "targetClients b" "b_type b" "b_data b" 0 0 s] r
    by (simp add: successes_def)
  have q: "messageQueue s1 = messageQueue s"
    using sendToTargets_queue[of "targetClients b" "b_type b" "b_data b" 0 0 s] r by simp
  have c: "config s1 = config s"
    using sendToTargets_config[of "targetClients b" "b_type b" "b_data b" 0 0 s] r by simp
  have i: "inbox s1 c = inbox s c @ sweepDeliveries s c (k, b)"
    using sendToTargets_inbox[of "targetClients b" "b_type b" "b_data b" 0 0 s c] r
    by (simp add: sweepDeliveries_def)
  have e: "emitted s1 = emitted s @ concat (map (sendNotice s (b_type b) (b_data b)) (targetClients b))"
    using sendToTargets_emitted[of "targetClients b" "b_type b" "b_data b" 0 0 s] r by simp
  have pb: "processBroadcast k (f, s) =
     (if failures s b > 0 then
        (if exhausted s (k, b) then f @ [k] else f,
         (if exhausted s (k, b) then emit (BroadcastMaxRetriesExceeded k (b_type b) (failures s b)) else id)
           (s1\<lparr>messageQueue := AList.update k (snd (retried (k, b))) (messageQueue s)\<rparr>))
      else (f, emit (BroadcastCompleted k (b_type b) (successes s b))
                 (s1\<lparr>messageQueue := AList.delete k (messageQueue s)\<rparr>)))"
    unfolding processBroadcast_def
    by (simp add: found r fc[symmetric] sc[symmetric] q exhausted_def retried_def Let_def)
  show "fst (processBroadcast k (f, s)) = f @ (if exhausted s (k, b) then [k] else [])"
    by (simp add: pb exhausted_def)
  show "messageQueue (snd (processBroadcast k (f, s))) =
           (if failures s b > 0 then AList.update k (snd (retried (k, b))) (messageQueue s)
            else AList.delete k (messageQueue s))"
    by (simp add: pb emit_def)
  show "config (snd (processBroadcast k (f, s))) = config s"
    by (simp add: pb c)
  show "inbox (snd (processBroadcast k (f, s))) c = inbox s c @ sweepDeliveries s c (k, b)"
    by (simp add: pb i)
  show "emitted (snd (processBroadcast k (f, s))) = emitted s @ sweepNotices s (k, b)"
    by (simp add: pb e emit_def sweepNotices_def exhausted_def)
qed

lemma fold_processBroadcast:
  assumes "distinct (map fst (pre @ rest))" and "messageQueue s = pre @ rest"
  shows "fst (fold processBroadcast (map fst rest) (f, s)) = f @ map fst (filter (exhausted s) rest)
       \<and> messageQueue (snd (fold processBroadcast (map fst rest) (f, s))) =
           pre @ map retried (filter (\<lambda>p. failures s (snd p) > 0) rest)
       \<and> config (snd (fold processBroadcast (map fst rest) (f, s))) = config s
       \<and> inbox (snd (fold processBroadcast (map fst rest) (f, s))) c =
           inbox s c @ concat (map (sweepDeliveries s c) rest)
       \<and> emitted (snd (fold processBroadcast (map fst rest) (f, s))) =
           emitted s @ concat (map (sweepNotices s) rest)"
  using assms
proof (induction rest arbitrary: pre f s)
  case Nil
  then show ?case by simp
next
  case (Cons p rest)
  obtain k b where p: "p = (k, b)" by (cases p)
  have kpre: "k \<notin> fst ` set pre" and krest: "k \<notin> fst ` set rest"
    using Cons.prems(1) by (auto simp: p)
  have found: "map_of (messageQueue s) k = Some b"
    unfolding Cons.prems(2) p by (rule map_of_mid[OF kpre])
  define f1 where "f1 = fst (processBroadcast k (f, s))"
  define s1 where "s1 = snd (processBroadcast k (f, s))"
  have step: "processBroadcast k (f, s) = (f1, s1)"
    by (simp add: f1_def s1_def)
  have f1: "f1 = f @ (if exhausted s (k, b) then [k] else [])"
    unfolding f1_def by (rule processBroadcast_found(1)[OF found])
  have c1: "config s1 = config s"
    unfolding s1_def by (rule processBroadcast_found(3)[OF found])
  have i1: "inbox s1 c = inbox s c @ sweepDeliveries s c (k, b)"
    unfolding s1_def by (rule processBroadcast_found(4)[OF found])
  have e1: "emitted s1 = emitted s @ sweepNotices s (k, b)"
    unfolding s1_def by (rule processBroadcast_found(5)[OF found])
  have q1: "messageQueue s1 =
      (if failures s b > 0 then (pre @ [retried (k, b)]) @ rest else pre @ rest)"
    unfolding s1_def processBroadcast_found(2)[OF found]
    by (simp add: Cons.prems(2) p update_mid[OF kpre] delete_mid[OF kpre krest] retried_def)
  note eqs = config_failures[OF c1] config_exhausted[OF c1] config_sweepNotices[OF c1]
    config_sweepDeliveries[OF c1]
  show ?case
  proof (cases "failures s b > 0")
    case True
    have d: "distinct (map fst ((pre @ [retried (k, b)]) @ rest))"
      using Cons.prems(1) by (simp add: p retried_def)
    have q: "messageQueue s1 = (pre @ [retried (k, b)]) @ rest"
      using q1 True by simp
    show ?thesis
      using Cons.IH[OF d q, of f1] True
      by (simp add: p step f1 c1 i1 e1 eqs)
  next
    case False
    have d: "distinct (map fst (pre @ rest))"
      using Cons.prems(1) by (simp add: p)
    have q: "messageQueue s1 = pre @ rest"
      using q1 False by simp
    have ne: "\<not> exhausted s (k, b)"
      using False by (simp add: exhausted_def)
    show ?thesis
      using Cons.IH[OF d q, of f1] False ne
      by (simp add: p step f1 c1 i1 e1 eqs)
  qed
qed

lemma fold_delete_filter:
  "fold AList.delete ks q = filter (\<lambda>p. fst p \<notin> set ks) q"
proof (induction ks arbitrary: q)
  case Nil
  show ?case by simp
next
  case (Cons k ks)
  have "AList.delete k q = filter (\<lambda>p. fst p \<noteq> k) q"
    by (induction q) auto
  then show ?case
    by (simp add: Cons.IH conj_commute)
qed

lemma exhausted_keys:
  assumes "distinct (map fst q)" and "p \<in> set q"
  shows "fst p \<in> set (map fst (filter E q)) \<longleftrightarrow> E p"
proof
  assume "fst p \<in> set (map fst (filter E q))"
  then obtain p' where p': "p' \<in> set q" "E p'" "fst p' = fst p" by auto
  have "p' = p"
    using assms p'(1,3) by (metis eq_key_imp_eq_value prod.collapse)
  then show "E p" using p'(2) by simp
next
  assume "E p"
  then show "fst p \<in> set (map fst (filter E q))" using assms(2) by auto
qed

lemma processQueue_sweep:
  assumes "distinct (map fst (messageQueue s))"
  shows "messageQueue (processQueue s) =
           map retried (filter (\<lambda>p. failures s (snd p) > 0 \<and> \<not> exhausted s p) (messageQueue s))"
    and "config (processQueue s) = config s"
    and "inbox (processQueue s) c = inbox s c @ concat (map (sweepDeliveries s c) (messageQueue s))"
    and "emitted (processQueue s) = emitted s @ concat (map (sweepNotices s) (messageQueue s))"
proof -
  define r where "r = fold processBroadcast (map fst (messageQueue s)) ([], s)"
  have d: "distinct (map fst ([] @ messageQueue s))" using assms by simp
  have m: "messageQueue s = [] @ messageQueue s" by simp
  note F = fold_processBroadcast[OF d m, of "[]", folded r_def]
  have pq: "processQueue s = (snd r)\<lparr>messageQueue := fold AList.delete (fst r) (messageQueue (snd r))\<rparr>"
    by (simp add: processQueue_def r_def split_beta)
  have f: "fst r = map fst (filter (exhausted s) (messageQueue s))" using F by simp
  have q: "messageQueue (snd r) = map retried (filter (\<lambda>p. failures s (snd p) > 0) (messageQueue s))"
    using F by simp
  have "filter (\<lambda>p. fst p \<notin> set (fst r)) (messageQueue (snd r)) =
        map retried (filter (\<lambda>p. failures s (snd p) > 0 \<and> \<not> exhausted s p) (messageQueue s))"
    unfolding q f filter_map filter_filter comp_def
    by (rule arg_cong[where f = "map retried"], rule filter_cong[OF refl])
      (use exhausted_keys[OF assms] in \<open>auto simp: retried_def\<close>)
  then show "messageQueue (processQueue s) =
           map retried (filter (\<lambda>p. failures s (snd p) > 0 \<and> \<not> exhausted s p) (messageQueue s))"
    by (simp add: pq fold_delete_filter)
  show "config (processQueue s) = config s" using F by (simp add: pq)
  show "inbox (processQueue s) c = inbox s c @ concat (map (sweepDeliveries s c) (messageQueue s))"
    using fold_processBroadcast[OF d m, of "[]" c, folded r_def] by (simp add: pq)
  show "emitted (processQueue s) = emitted s @ concat (map (sweepNotices s) (messageQueue s))"
    using F by (simp add: pq)
qed

lemma countGe_Num [simp]: "countGe n (Num r) = (r \<le> of_nat n)"
  by (simp add: countGe_def)

lemma countLe_Num [simp]: "countLe n (Num r) = (of_nat n \<le> r)"
  by (simp add: countLe_def)

lemma withinCapacity_0 [simp]: "withinCapacity 0 x"
  by (cases x) (simp_all add: withinCapacity_def)

lemma length_update_le: "length (AList.update k v al) \<le> Suc (length al)"
  by (induction al) auto

lemma withinCapacity_mono: "withinCapacity n x \<Longrightarrow> m \<le> n \<Longrightarrow> withinCapacity m x"
  by (cases x) (auto simp: withinCapacity_def)

lemma withinCapacity_Suc:
  "\<not> countGe n x \<Longrightarrow> m \<le> Suc n \<Longrightarrow> withinCapacity m x"
proof (cases x)
  case (Num r)
  assume "\<not> countGe n x" and m: "m \<le> Suc n"
  then have "of_nat n < r" by (simp add: countGe_def Num)
  then have "of_int (int n) < r" by simp
  then have "int n < \<lceil>r\<rceil>" by (simp only: less_ceiling_iff)
  then show ?thesis using m by (simp add: withinCapacity_def Num)
qed (simp_all add: withinCapacity_def countGe_def)

lemma addToQueue_inv: "queueInv s \<Longrightarrow> queueInv (snd (addToQueue b s))"
  using length_update_le[of "b_id b" b "messageQueue s"]
    withinCapacity_Suc[of "length (messageQueue s)" "maxQueueSize s"
      "length (AList.update (b_id b) b (messageQueue s))"]
  by (auto simp: queueInv_def addToQueue_def getQueueSize_def emit_def distinct_update)

lemma addToQueue_maxQueueSize: "maxQueueSize (snd (addToQueue b s)) = maxQueueSize s"
  by (simp add: addToQueue_def emit_def)

lemma broadcast_inv: "queueInv s \<Longrightarrow> queueInv (snd (broadcast b t d s))"
  using addToQueue_inv[of s]
  by (auto simp: broadcast_def Let_def split_beta queueInv_def emit_def getQueueSize_def)

lemma broadcastToClients_inv: "queueInv s \<Longrightarrow> queueInv (snd (broadcastToClients b ids t d s))"
  using addToQueue_inv[of s]
  by (auto simp: broadcastToClients_def Let_def split_beta queueInv_def emit_def getQueueSize_def)

lemma processQueue_inv:
  assumes "queueInv s" shows "queueInv (processQueue s)"
proof -
  have d: "distinct (map fst (messageQueue s))" using assms by (simp add: queueInv_def)
  have m: "maxQueueSize (processQueue s) = maxQueueSize s"
    using processQueue_sweep(2)[OF d] by (simp add: config_def)
  have k: "map fst (map retried xs) = map fst xs" for xs
    by (simp add: retried_def comp_def)
  have "distinct (map fst (messageQueue (processQueue s)))"
    unfolding processQueue_sweep(1)[OF d] k using d by (simp add: distinct_map_filter)
  moreover have "length (messageQueue (processQueue s)) \<le> length (messageQueue s)"
    unfolding processQueue_sweep(1)[OF d] by simp
  ultimately show ?thesis
    using assms withinCapacity_mono[of "length (messageQueue s)" "maxQueueSize s"
        "length (messageQueue (processQueue s))"]
    by (simp add: queueInv_def getQueueSize_def m)
qed

lemma applyOp_inv: "queueInv s \<Longrightarrow> queueInv (applyOp op s)"
proof (cases op)
  case (Broadcast b t d)
  then show "queueInv s \<Longrightarrow> queueInv (applyOp op s)" by (simp add: broadcast_inv)
next
  case (BroadcastToClients b ids t d)
  then show "queueInv s \<Longrightarrow> queueInv (applyOp op s)" by (simp add: broadcastToClients_inv)
next
  case (BroadcastToTag b g t d)
  then show "queueInv s \<Longrightarrow> queueInv (applyOp op s)"
    by (simp add: broadcastToTag_def broadcastToClients_inv)
next
  case TimerFires
  then show "queueInv s \<Longrightarrow> queueInv (applyOp op s)" by (simp add: processQueue_inv)
next
  case (SendToClient i t d)
  then show "queueInv s \<Longrightarrow> queueInv (applyOp op s)"
    using sendToClient_queue[of i t d s] sendToClient_config[of i t d s]
    by (simp add: queueInv_def getQueueSize_def config_def)
qed (auto simp: queueInv_def getQueueSize_def registerClient_def unregisterClient_def
      addClientTag_def removeClientTag_def startQueueProcessing_def stopQueueProcessing_def
      clearQueue_def closeAll_def emit_def Let_def split: option.splits)

lemma run_inv: "queueInv s \<Longrightarrow> queueInv (run ops s)"
  unfolding run_def by (induction ops arbitrary: s) (simp_all add: applyOp_inv)

lemma newBroadcaster_inv: "queueInv (newBroadcaster q r t)"
  by (cases "orDefault q (Num 1000)")
    (simp_all add: queueInv_def newBroadcaster_def getQueueSize_def withinCapacity_def)

lemma applyOp_maxQueueSize: "queueInv s \<Longrightarrow> maxQueueSize (applyOp op s) = maxQueueSize s"
proof (cases op)
  case TimerFires
  assume "queueInv s"
  then have "distinct (map fst (messageQueue s))" by (simp add: queueInv_def)
  then have "maxQueueSize (processQueue s) = maxQueueSize s"
    using processQueue_sweep(2) by (simp add: config_def)
  then show ?thesis by (simp add: TimerFires)
qed (auto simp: registerClient_def unregisterClient_def addClientTag_def removeClientTag_def
      broadcast_def broadcastToClients_def broadcastToTag_def addToQueue_def sendToClient_def
      startQueueProcessing_def stopQueueProcessing_def clearQueue_def closeAll_def emit_def
      Let_def split_beta split: option.splits jsdata.splits)

lemma run_maxQueueSize: "queueInv s \<Longrightarrow> maxQueueSize (run ops s) = maxQueueSize s"
  unfolding run_def
  by (induction ops arbitrary: s) (simp_all add: applyOp_inv applyOp_maxQueueSize)

lemmas broadcaster_defs =
  newBroadcaster_def orDefault_def registerClient_def unregisterClient_def getClient_def
  broadcast_def broadcastToClients_def addToQueue_def getQueueSize_def getClientIds_def
  newSet_def emit_def run_def openSocket_def exampleBroadcast_def Let_def

lemma retried_pair: "retried (k, b) = (k, b\<lparr>retryCount := Suc (retryCount b)\<rparr>)"
  by (simp add: retried_def)

lemma map_of_retried_filter:
  "distinct (map fst q) \<Longrightarrow>
   map_of (map retried (filter P q)) k =
     (case map_of q k of
        None \<Rightarrow> None
      | Some b \<Rightarrow> if P (k, b) then Some (snd (retried (k, b))) else None)"
proof (induction q)
  case Nil
  show ?case by simp
next
  case (Cons p q)
  obtain k' b' where p: "p = (k', b')" by (cases p)
  have IH: "map_of (map retried (filter P q)) k =
     (case map_of q k of None \<Rightarrow> None
      | Some b \<Rightarrow> if P (k, b) then Some (snd (retried (k, b))) else None)"
    using Cons by simp
  have fresh: "map_of q k' = None"
    using Cons.prems by (simp add: p map_of_eq_None_iff)
  show ?case
  proof (cases "k = k'")
    case True
    then show ?thesis using IH fresh by (simp add: p retried_pair)
  next
    case False
    then show ?thesis using IH by (simp add: p retried_pair)
  qed
qed

lemma processQueue_entry:
  assumes "distinct (map fst (messageQueue s))"
  shows "map_of (messageQueue (processQueue s)) k =
     (case map_of (messageQueue s) k of
        None \<Rightarrow> None
      | Some b \<Rightarrow>
          if failures s b > 0 \<and> \<not> exhausted s (k, b) then Some (snd (retried (k, b))) else None)"
  unfolding processQueue_sweep(1)[OF assms]
  by (simp add: map_of_retried_filter[OF assms] split: option.splits)

lemma processQueue_notices:
  assumes "distinct (map fst (messageQueue s))" and "p \<in> set (messageQueue s)"
  shows "set (sweepNotices s p) \<subseteq> set (emitted (processQueue s))"
  unfolding processQueue_sweep(4)[OF assms(1)] using assms(2) by auto

lemma update_fresh: "k \<notin> fst ` set al \<Longrightarrow> AList.update k v al = al @ [(k, v)]"
  by (induction al) auto

lemma failures_no_targets: "targetClients b = [] \<Longrightarrow> failures s b = 0 \<and> successes s b = 0"
  by (simp add: failures_def successes_def)

lemma deliverable_now [simp]: "deliverable (s\<lparr>now := t\<rparr>) = deliverable s"
  by (simp add: fun_eq_iff deliverable_def)

lemma now_update_obs [simp]:
  "failures (s\<lparr>now := t\<rparr>) = failures s"
  "successes (s\<lparr>now := t\<rparr>) = successes s"
  "exhausted (s\<lparr>now := t\<rparr>) = exhausted s"
  "inbox (s\<lparr>now := t\<rparr>) = inbox s"
  by (simp_all add: fun_eq_iff failures_def successes_def exhausted_def inbox_def)

lemma sweeps_Cons: "sweeps (t # ts) s = sweeps ts (processQueue (s\<lparr>now := t\<rparr>))"
  by (simp add: sweeps_def)

lemma sweeps_Nil: "sweeps [] s = s"
  by (simp add: sweeps_def)

lemma failures_retried [simp]: "failures s (b\<lparr>retryCount := n\<rparr>) = failures s b"
  by (simp add: failures_def)

lemma sweeps_single:
  assumes "messageQueue s = [(k, b)]"
    and "0 < failures s b"
    and "b_maxRetries b = Num (of_nat m)"
    and "retryCount b + length ts \<le> m"
  shows "messageQueue (sweeps ts s) =
           (if ts \<noteq> [] \<and> retryCount b + length ts = m then []
            else [(k, b\<lparr>retryCount := retryCount b + length ts\<rparr>)])
       \<and> deliverable (sweeps ts s) = deliverable s
       \<and> inbox (sweeps ts s) c =
           inbox s c @
           (if deliverable s (b_data b) c
            then concat (map (\<lambda>t. replicate (count_list (targetClients b) c)
                                   (envelope (b_type b) (b_data b) t)) ts)
            else [])
       \<and> (ts \<noteq> [] \<and> retryCount b + length ts = m \<longrightarrow>
            BroadcastMaxRetriesExceeded k (b_type b) (failures s b) \<in> set (emitted (sweeps ts s)))"
  using assms
proof (induction ts arbitrary: s b)
  case Nil
  then show ?case by (simp add: sweeps_Nil)
next
  case (Cons t ts)
  define s0 where "s0 = s\<lparr>now := t\<rparr>"
  define s1 where "s1 = processQueue s0"
  have q0: "messageQueue s0 = [(k, b)]" and d0: "distinct (map fst (messageQueue s0))"
    using Cons.prems(1) by (simp_all add: s0_def)
  have f0: "0 < failures s0 b" using Cons.prems(2) by (simp add: s0_def)
  have c1: "config s1 = config s0" unfolding s1_def by (rule processQueue_sweep(2)[OF d0])
  have del1: "deliverable s1 = deliverable s"
    using config_deliverable[OF c1] by (simp add: s0_def)
  have fail1: "failures s1 = failures s"
    using config_failures[OF c1] by (simp add: s0_def)
  have i1: "inbox s1 c = inbox s c @
      (if deliverable s (b_data b) c
       then replicate (count_list (targetClients b) c) (envelope (b_type b) (b_data b) t) else [])"
    unfolding s1_def processQueue_sweep(3)[OF d0] q0
    by (simp add: sweepDeliveries_def) (simp add: s0_def)
  have e1: "emitted s1 = emitted s @ sweepNotices s0 (k, b)"
    unfolding s1_def processQueue_sweep(4)[OF d0] q0 by (simp add: s0_def)
  note mx = Cons.prems(3)
  have q1: "messageQueue s1 =
      (if Suc (retryCount b) \<ge> m then [] else [(k, b\<lparr>retryCount := Suc (retryCount b)\<rparr>)])"
    unfolding s1_def processQueue_sweep(1)[OF d0] q0 using f0
    by (simp add: exhausted_def retried_pair mx)
  show ?case
  proof (cases "Suc (retryCount b) \<ge> m")
    case True
    then have last: "ts = []" and hit: "Suc (retryCount b) = m"
      using Cons.prems(4) by (cases ts; simp)+
    have ex: "exhausted s0 (k, b)" using f0 hit by (simp add: exhausted_def mx)
    have "BroadcastMaxRetriesExceeded k (b_type b) (failures s b) \<in> set (emitted s1)"
      using f0 ex by (simp add: e1 sweepNotices_def) (simp add: s0_def)
    then show ?thesis
      using True hit q1 del1 i1
      by (simp add: sweeps_Cons sweeps_Nil last s0_def[symmetric] s1_def[symmetric])
  next
    case False
    define b' where "b' = b\<lparr>retryCount := Suc (retryCount b)\<rparr>"
    have q: "messageQueue s1 = [(k, b')]" using q1 False by (simp add: b'_def)
    have f: "0 < failures s1 b'" using Cons.prems(2) by (simp add: fail1 b'_def)
    have mx': "b_maxRetries b' = Num (of_nat m)" using mx by (simp add: b'_def)
    have l: "retryCount b' + length ts \<le> m"
      using Cons.prems(4) by (simp add: b'_def)
    note IH = Cons.IH[OF q f mx' l]
    have nonempty: "ts \<noteq> []" if "retryCount b + length (t # ts) = m"
      using that False by auto
    show ?thesis
      using IH False nonempty
      by (auto simp add: sweeps_Cons s0_def[symmetric] s1_def[symmetric] del1 fail1 i1 b'_def)
  qed
qed

lemma count_list_distinct: "distinct xs \<Longrightarrow> count_list xs x = (if x \<in> set xs then 1 else 0)"
  by (induction xs) auto

lemma concat_singletons: "concat (map (\<lambda>t. replicate (Suc 0) (f t)) ts) = map f ts"
  by (induction ts) auto

lemma leftState_fields:
  "clients leftState = []"
  "messageQueue leftState = [(''b1'', exampleBroadcast ''b1'' [''c1''])]"
  by (simp_all add: leftState_def broadcaster_defs)

lemma threeClients_fields:
  "messageQueue threeClients = [(''b1'', exampleBroadcast ''b1'' [''c1'', ''c2'', ''c3''])]"
  "map_of (clients threeClients) ''c1'' =
     Some \<lparr>ws = openSocket,
           metadata = \<lparr>cm_id = ''c1'', joinedAt = 0, lastMessageAt = None, tags = []\<rparr>\<rparr>"
  "map_of (clients threeClients) ''c2'' =
     Some \<lparr>ws = openSocket\<lparr>readyState := CLOSED\<rparr>,
           metadata = \<lparr>cm_id = ''c2'', joinedAt = 0, lastMessageAt = None, tags = []\<rparr>\<rparr>"
  "map_of (clients threeClients) ''c3'' =
     Some \<lparr>ws = openSocket,
           metadata = \<lparr>cm_id = ''c3'', joinedAt = 0, lastMessageAt = None, tags = []\<rparr>\<rparr>"
  by (simp_all add: threeClients_def newBroadcaster_def orDefault_def registerClient_def
      broadcast_def addToQueue_def getQueueSize_def getClientIds_def newSet_def emit_def run_def
      exampleBroadcast_def Let_def)

lemma twoClients_fields:
  "messageQueue twoClients = [(''b1'', exampleBroadcast ''b1'' [''c1'', ''c3''])]"
  "map_of (clients twoClients) ''c1'' =
     Some \<lparr>ws = openSocket,
           metadata = \<lparr>cm_id = ''c1'', joinedAt = 0, lastMessageAt = None, tags = []\<rparr>\<rparr>"
  "map_of (clients twoClients) ''c3'' =
     Some \<lparr>ws = openSocket,
           metadata = \<lparr>cm_id = ''c3'', joinedAt = 0, lastMessageAt = None, tags = []\<rparr>\<rparr>"
  by (simp_all add: twoClients_def newBroadcaster_def orDefault_def registerClient_def
      broadcast_def addToQueue_def getQueueSize_def getClientIds_def newSet_def emit_def run_def
      exampleBroadcast_def Let_def)

section \<open>Lemmas on the risk engine and the normalizer\<close>

lemma lower_unknown: "toLowerCase ''unknown'' = ''unknown''" "toLowerCase ''flash_loan'' = ''flash_loan''"
  by (simp_all add: toLowerCase_def lowerChar_def)

lemmas risk_defs = evaluateEvent_def evaluateAmount_def evaluateProgram_def evaluateEventType_def
  addFactor_def scoreToLevel_def SUSPICIOUS_PROGRAMS_def MAX_SAFE_AMOUNT_def Let_def














lemma evaluateEvent_clamped:
  "0 \<le> rs_score (evaluateEvent e clock) \<and> rs_score (evaluateEvent e clock) \<le> 1
   \<and> rs_level (evaluateEvent e clock) = scoreToLevel (rs_score (evaluateEvent e clock))"
  by (simp add: evaluateEvent_def Let_def split_beta)




section \<open>Properties of the client registry and the broadcast queue\<close>

text \<open>C1, as stated, fails: client \<open>c1\<close> registers, a broadcast to all is queued, \<open>c1\<close>
  unregisters. In the next sweep the failure tally of the broadcast is 1, and the broadcast
  stays queued with \<open>retryCount\<close> 1 instead of completing.\<close>

theorem unregistered_target_not_skipped:
  "map_of (clients leftState) ''c1'' = None
   \<and> map_of (messageQueue leftState) ''b1'' = Some (exampleBroadcast ''b1'' [''c1''])
   \<and> fst (snd (sendToTargets [''c1''] ''event'' (Json ''{}'') (0, 0, leftState))) = 1
   \<and> map_of (messageQueue (processQueue leftState)) ''b1'' =
       Some ((exampleBroadcast ''b1'' [''c1''])\<lparr>retryCount := 1\<rparr>)"
  by (simp add: leftState_fields processQueue_def processBroadcast_def sendToClient_def
      exampleBroadcast_def emit_def Let_def)

text \<open>C1, amended: a target id that is not registered at send time gets no send and no
  notification (\<open>sendToClient\<close> returns false and leaves the state as it is), and it is
  counted in the sweep's failure tally like a closed or raising socket: the tally is the
  number of targets for which \<open>sendToClient\<close> returns false, it is positive, and the sweep
  increments the broadcast's \<open>retryCount\<close>, keeping the broadcast or, at \<open>maxRetries\<close>,
  dropping it.\<close>

theorem unregistered_target_counts_as_failure:
  assumes keys: "distinct (map fst (messageQueue s))"
    and queued: "map_of (messageQueue s) broadcastId = Some b"
    and target: "clientId \<in> set (targetClients b)"
    and left: "map_of (clients s) clientId = None"
  shows "sendToClient clientId (b_type b) (b_data b) s = (False, s)
       \<and> fst (snd (sendToTargets (targetClients b) (b_type b) (b_data b) (0, 0, s))) =
           length (filter (\<lambda>c. \<not> fst (sendToClient c (b_type b) (b_data b) s)) (targetClients b))
       \<and> 0 < fst (snd (sendToTargets (targetClients b) (b_type b) (b_data b) (0, 0, s)))
       \<and> map_of (messageQueue (processQueue s)) broadcastId =
           (if countGe (Suc (retryCount b)) (b_maxRetries b) then None
            else Some (b\<lparr>retryCount := Suc (retryCount b)\<rparr>))"
proof -
  have nd: "\<not> deliverable s (b_data b) clientId"
    by (simp add: deliverable_def left)
  have f: "fst (snd (sendToTargets (targetClients b) (b_type b) (b_data b) (0, 0, s))) = failures s b"
    by (simp add: sendToTargets_failed failures_def)
  have pos: "0 < failures s b"
    unfolding failures_def using target nd by (simp add: filter_empty_conv) blast
  have 1: "sendToClient clientId (b_type b) (b_data b) s = (False, s)"
    by (simp add: sendToClient_def left)
  have 2: "fst (snd (sendToTargets (targetClients b) (b_type b) (b_data b) (0, 0, s))) =
           length (filter (\<lambda>c. \<not> fst (sendToClient c (b_type b) (b_data b) s)) (targetClients b))"
    by (simp add: sendToTargets_failed sendToClient_success)
  have 3: "0 < fst (snd (sendToTargets (targetClients b) (b_type b) (b_data b) (0, 0, s)))"
    using pos f by simp
  have 4: "map_of (messageQueue (processQueue s)) broadcastId =
           (if countGe (Suc (retryCount b)) (b_maxRetries b) then None
            else Some (b\<lparr>retryCount := Suc (retryCount b)\<rparr>))"
    using pos by (simp add: processQueue_entry[OF keys] queued exhausted_def retried_pair)
  show ?thesis using 1 2 3 4 by blast
qed

theorem unregistered_target_counts_as_failure_witness:
  "distinct (map fst (messageQueue leftState))
   \<and> map_of (messageQueue leftState) ''b1'' = Some (exampleBroadcast ''b1'' [''c1''])
   \<and> ''c1'' \<in> set (targetClients (exampleBroadcast ''b1'' [''c1'']))
   \<and> map_of (clients leftState) ''c1'' = None
   \<and> sendToClient ''c1'' ''event'' (Json ''{}'') leftState = (False, leftState)
   \<and> retryCount (the (map_of (messageQueue (processQueue leftState)) ''b1'')) = 1"
proof -
  have h1: "distinct (map fst (messageQueue leftState))" by (simp add: leftState_fields)
  have h2: "map_of (messageQueue leftState) ''b1'' = Some (exampleBroadcast ''b1'' [''c1''])"
    by (simp add: leftState_fields)
  have h3: "''c1'' \<in> set (targetClients (exampleBroadcast ''b1'' [''c1'']))"
    by (simp add: exampleBroadcast_def)
  have h4: "map_of (clients leftState) ''c1'' = None" by (simp add: leftState_fields)
  note R = unregistered_target_counts_as_failure[OF h1 h2 h3 h4]
  have r1: "sendToClient ''c1'' ''event'' (Json ''{}'') leftState = (False, leftState)"
    using R[THEN conjunct1] by (simp add: exampleBroadcast_def)
  have r2: "retryCount (the (map_of (messageQueue (processQueue leftState)) ''b1'')) = 1"
    using R[THEN conjunct2, THEN conjunct2, THEN conjunct2] by (simp add: exampleBroadcast_def)
  show ?thesis by (intro conjI) (rule h1 h2 h3 h4 r1 r2)+
qed

text \<open>C4: for a queued broadcast, one sweep sends to every target (a target that can be
  delivered to gets the message once for each time it is listed; \<open>targetClients\<close> itself
  never changes). The two tallies of \<open>sendToTargets\<close> are \<open>successes\<close> and \<open>failures\<close>.
  With no failure the broadcast leaves the queue and \<open>broadcast:completed\<close> is emitted
  with the sent count; otherwise \<open>retryCount\<close> is incremented, and when it reaches
  \<open>maxRetries\<close> the broadcast is dropped and \<open>broadcast:max-retries-exceeded\<close> is emitted
  with the failure count.

  Hence, for a queue holding one new broadcast with some target \<open>bad\<close> whose send fails,
  and sweeps at the times \<open>ts\<close>, as many as \<open>maxRetries\<close>: the broadcast is still queued
  after every proper prefix of the sweeps, with \<open>retryCount\<close> the number of sweeps so far,
  and gone after the last; the socket of \<open>bad\<close> has been handed nothing; every target
  that can be delivered to has been handed the message once for each sweep. The examples
  after the theorem are the case of three registered clients of which one has a closed
  socket and \<open>maxRetries\<close> is 3, its third sweep taken alone, and a sweep with no
  failure.\<close>

theorem retry_until_maxRetries:
  assumes keys: "distinct (map fst (messageQueue s))"
    and queued: "map_of (messageQueue s) k = Some b"
  shows "fst (sendToTargets (targetClients b) (b_type b) (b_data b) (0, 0, s)) = successes s b
       \<and> fst (snd (sendToTargets (targetClients b) (b_type b) (b_data b) (0, 0, s))) = failures s b
       \<and> map_of (messageQueue (processQueue s)) k =
           (if failures s b = 0 then None
            else if countGe (Suc (retryCount b)) (b_maxRetries b) then None
            else Some (b\<lparr>retryCount := Suc (retryCount b)\<rparr>))
       \<and> (failures s b = 0 \<longrightarrow>
            BroadcastCompleted k (b_type b) (successes s b) \<in> set (emitted (processQueue s)))
       \<and> (0 < failures s b \<and> countGe (Suc (retryCount b)) (b_maxRetries b) \<longrightarrow>
            BroadcastMaxRetriesExceeded k (b_type b) (failures s b)
              \<in> set (emitted (processQueue s)))
       \<and> (\<forall>c. inbox (processQueue s) c =
                 inbox s c @ concat (map (sweepDeliveries s c) (messageQueue s)))
       \<and> (messageQueue s = [(k, b)] \<and> retryCount b = 0 \<and> 0 < length ts
            \<and> b_maxRetries b = Num (of_nat (length ts)) \<and> distinct (targetClients b)
            \<and> bad \<in> set (targetClients b) \<and> \<not> deliverable s (b_data b) bad \<longrightarrow>
              messageQueue (sweeps ts s) = []
            \<and> (\<forall>j < length ts. messageQueue (sweeps (take j ts) s) = [(k, b\<lparr>retryCount := j\<rparr>)])
            \<and> inbox (sweeps ts s) bad = inbox s bad
            \<and> (\<forall>c \<in> set (targetClients b). deliverable s (b_data b) c \<longrightarrow>
                  inbox (sweeps ts s) c = inbox s c @ map (envelope (b_type b) (b_data b)) ts)
            \<and> BroadcastMaxRetriesExceeded k (b_type b) (failures s b)
                \<in> set (emitted (sweeps ts s)))"
proof (intro conjI impI allI)
  show "fst (sendToTargets (targetClients b) (b_type b) (b_data b) (0, 0, s)) = successes s b"
    by (simp add: sendToTargets_sent successes_def)
  show "fst (snd (sendToTargets (targetClients b) (b_type b) (b_data b) (0, 0, s))) = failures s b"
    by (simp add: sendToTargets_failed failures_def)
  show "map_of (messageQueue (processQueue s)) k =
           (if failures s b = 0 then None
            else if countGe (Suc (retryCount b)) (b_maxRetries b) then None
            else Some (b\<lparr>retryCount := Suc (retryCount b)\<rparr>))"
    by (simp add: processQueue_entry[OF keys] queued exhausted_def retried_pair)
  have mem: "(k, b) \<in> set (messageQueue s)"
    using queued by (rule map_of_SomeD)
  note N = processQueue_notices[OF keys mem]
  show "BroadcastCompleted k (b_type b) (successes s b) \<in> set (emitted (processQueue s))"
    if "failures s b = 0"
    using N that by (auto simp: sweepNotices_def)
  show "BroadcastMaxRetriesExceeded k (b_type b) (failures s b) \<in> set (emitted (processQueue s))"
    if "0 < failures s b \<and> countGe (Suc (retryCount b)) (b_maxRetries b)"
    using N that by (auto simp: sweepNotices_def exhausted_def)
  show "inbox (processQueue s) c = inbox s c @ concat (map (sweepDeliveries s c) (messageQueue s))"
    for c
    by (rule processQueue_sweep(3)[OF keys])
next
  assume sc: "messageQueue s = [(k, b)] \<and> retryCount b = 0 \<and> 0 < length ts
            \<and> b_maxRetries b = Num (of_nat (length ts)) \<and> distinct (targetClients b)
            \<and> bad \<in> set (targetClients b) \<and> \<not> deliverable s (b_data b) bad"
  then have q: "messageQueue s = [(k, b)]" and r0: "retryCount b = 0"
    and len: "b_maxRetries b = Num (of_nat (length ts))" and pos: "0 < length ts"
    and dt: "distinct (targetClients b)" and bad: "bad \<in> set (targetClients b)"
    and nd: "\<not> deliverable s (b_data b) bad"
    by simp_all
  have f: "0 < failures s b"
    unfolding failures_def using bad nd by (simp add: filter_empty_conv) blast
  have ne: "ts \<noteq> []" using pos by auto
  have full: "retryCount b + length ts \<le> length ts" using r0 by simp
  note S = sweeps_single[OF q f len full]
  show "messageQueue (sweeps ts s) = []"
    using S[of bad] ne len r0 by simp
  show "inbox (sweeps ts s) bad = inbox s bad"
    using S[of bad] nd by simp
  show "BroadcastMaxRetriesExceeded k (b_type b) (failures s b) \<in> set (emitted (sweeps ts s))"
    using S[of bad] ne len r0 by simp
  show "messageQueue (sweeps (take j ts) s) = [(k, b\<lparr>retryCount := j\<rparr>)]"
    if j: "j < length ts" for j
  proof -
    have l: "retryCount b + length (take j ts) \<le> length ts"
      using j r0 by simp
    show ?thesis
      using sweeps_single[OF q f len l, of bad] j r0 by (simp add: min_def)
  qed
  show "\<forall>c\<in>set (targetClients b). deliverable s (b_data b) c \<longrightarrow>
          inbox (sweeps ts s) c = inbox s c @ map (envelope (b_type b) (b_data b)) ts"
  proof (intro ballI impI)
    fix c assume c: "c \<in> set (targetClients b)" and d: "deliverable s (b_data b) c"
    show "inbox (sweeps ts s) c = inbox s c @ map (envelope (b_type b) (b_data b)) ts"
      using S[of c] d c by (simp add: count_list_distinct[OF dt] concat_singletons)
  qed
qed

theorem retry_until_maxRetries_witness:
  "distinct (map fst (messageQueue threeClients))
   \<and> messageQueue threeClients = [(''b1'', exampleBroadcast ''b1'' [''c1'', ''c2'', ''c3''])]
   \<and> deliverable threeClients (Json ''{}'') ''c1''
   \<and> \<not> deliverable threeClients (Json ''{}'') ''c2''
   \<and> deliverable threeClients (Json ''{}'') ''c3''
   \<and> messageQueue (sweeps [10, 20, 30] threeClients) = []
   \<and> messageQueue (sweeps [10, 20] threeClients) =
       [(''b1'', (exampleBroadcast ''b1'' [''c1'', ''c2'', ''c3''])\<lparr>retryCount := 2\<rparr>)]
   \<and> inbox (sweeps [10, 20, 30] threeClients) ''c2'' = []
   \<and> inbox (sweeps [10, 20, 30] threeClients) ''c1'' =
       [envelope ''event'' (Json ''{}'') 10, envelope ''event'' (Json ''{}'') 20,
        envelope ''event'' (Json ''{}'') 30]
   \<and> inbox (sweeps [10, 20, 30] threeClients) ''c3'' =
       [envelope ''event'' (Json ''{}'') 10, envelope ''event'' (Json ''{}'') 20,
        envelope ''event'' (Json ''{}'') 30]
   \<and> BroadcastMaxRetriesExceeded ''b1'' ''event'' 1
       \<in> set (emitted (sweeps [10, 20, 30] threeClients))
   \<and> failures (sweeps [10, 20] threeClients)
         ((exampleBroadcast ''b1'' [''c1'', ''c2'', ''c3''])\<lparr>retryCount := 2\<rparr>) = 1
   \<and> BroadcastMaxRetriesExceeded ''b1'' ''event'' 1
       \<in> set (emitted (processQueue (sweeps [10, 20] threeClients)))
   \<and> messageQueue twoClients = [(''b1'', exampleBroadcast ''b1'' [''c1'', ''c3''])]
   \<and> failures twoClients (exampleBroadcast ''b1'' [''c1'', ''c3'']) = 0
   \<and> map_of (messageQueue (processQueue twoClients)) ''b1'' = None
   \<and> BroadcastCompleted ''b1'' ''event'' 2 \<in> set (emitted (processQueue twoClients))"
proof -
  let ?b = "exampleBroadcast ''b1'' [''c1'', ''c2'', ''c3'']"
  let ?ts = "[10, 20, 30] :: nat list"
  have q: "messageQueue threeClients = [(''b1'', ?b)]" by (rule threeClients_fields(1))
  have keys: "distinct (map fst (messageQueue threeClients))" by (simp add: q)
  have queued: "map_of (messageQueue threeClients) ''b1'' = Some ?b" by (simp add: q)
  have d1: "deliverable threeClients (Json ''{}'') ''c1''"
    and d2: "\<not> deliverable threeClients (Json ''{}'') ''c2''"
    and d3: "deliverable threeClients (Json ''{}'') ''c3''"
    by (simp_all add: deliverable_def threeClients_fields openSocket_def)
  have fields: "b_data ?b = Json ''{}''" "b_type ?b = ''event''" "retryCount ?b = 0"
    "b_maxRetries ?b = Num 3" "targetClients ?b = [''c1'', ''c2'', ''c3'']"
    by (simp_all add: exampleBroadcast_def)
  have fl: "failures threeClients ?b = 1"
    using d1 d2 d3 by (simp add: failures_def fields)
  have ib: "inbox threeClients c = []" if "c \<in> {''c1'', ''c2'', ''c3''}" for c
    using that by (auto simp: inbox_def threeClients_fields openSocket_def)
  have sc: "messageQueue threeClients = [(''b1'', ?b)] \<and> retryCount ?b = 0 \<and> 0 < length ?ts
            \<and> b_maxRetries ?b = Num (of_nat (length ?ts)) \<and> distinct (targetClients ?b)
            \<and> ''c2'' \<in> set (targetClients ?b) \<and> \<not> deliverable threeClients (b_data ?b) ''c2''"
    using q d2 by (simp add: fields)
  note T = retry_until_maxRetries[OF keys queued, of ?ts "''c2''"]
  from T sc have R:
    "messageQueue (sweeps ?ts threeClients) = []"
    "\<forall>j<length ?ts. messageQueue (sweeps (take j ?ts) threeClients) = [(''b1'', ?b\<lparr>retryCount := j\<rparr>)]"
    "inbox (sweeps ?ts threeClients) ''c2'' = inbox threeClients ''c2''"
    "\<forall>c\<in>set (targetClients ?b). deliverable threeClients (b_data ?b) c \<longrightarrow>
        inbox (sweeps ?ts threeClients) c =
        inbox threeClients c @ map (envelope (b_type ?b) (b_data ?b)) ?ts"
    "BroadcastMaxRetriesExceeded ''b1'' (b_type ?b) (failures threeClients ?b)
       \<in> set (emitted (sweeps ?ts threeClients))"
    by blast+
  have r2: "messageQueue (sweeps [10, 20] threeClients) = [(''b1'', ?b\<lparr>retryCount := 2\<rparr>)]"
    using R(2)[rule_format, of 2] by simp
  have r3: "inbox (sweeps ?ts threeClients) ''c2'' = []"
    using R(3) ib by simp
  have r4: "inbox (sweeps ?ts threeClients) ''c1'' =
       [envelope ''event'' (Json ''{}'') 10, envelope ''event'' (Json ''{}'') 20,
        envelope ''event'' (Json ''{}'') 30]"
    using R(4)[rule_format, of "''c1''"] d1 ib by (simp add: fields)
  have r5: "inbox (sweeps ?ts threeClients) ''c3'' =
       [envelope ''event'' (Json ''{}'') 10, envelope ''event'' (Json ''{}'') 20,
        envelope ''event'' (Json ''{}'') 30]"
    using R(4)[rule_format, of "''c3''"] d3 ib by (simp add: fields)
  have r6: "BroadcastMaxRetriesExceeded ''b1'' ''event'' 1
       \<in> set (emitted (sweeps ?ts threeClients))"
    using R(5) by (simp add: fields fl)
  \<comment> \<open>the third sweep on its own: the tally is positive and the count reaches \<open>maxRetries\<close>\<close>
  let ?s2 = "sweeps [10, 20] threeClients"
  let ?b2 = "?b\<lparr>retryCount := 2\<rparr>"
  have mx: "b_maxRetries ?b = Num (of_nat 3)" by (simp add: fields)
  have full: "retryCount ?b + length [10, 20 :: nat] \<le> 3" by (simp add: fields)
  have pos: "0 < failures threeClients ?b" by (simp add: fl)
  have del2: "deliverable ?s2 = deliverable threeClients"
    using sweeps_single[OF q pos mx full, of "''c2''"] by blast
  have fl2: "failures ?s2 ?b2 = 1"
    using fl by (simp add: failures_def del2)
  have fl2b: "failures ?s2 ?b = 1"
    using fl by (simp add: failures_def del2)
  have keys2: "distinct (map fst (messageQueue ?s2))" by (simp add: r2)
  have queued2: "map_of (messageQueue ?s2) ''b1'' = Some ?b2" by (simp add: r2)
  note T2 = retry_until_maxRetries[OF keys2 queued2, of ?ts "''c2''"]
  have hit: "0 < failures ?s2 ?b2 \<and> countGe (Suc (retryCount ?b2)) (b_maxRetries ?b2)"
    by (simp add: fl2b fields countGe_def)
  from T2 hit have "BroadcastMaxRetriesExceeded ''b1'' (b_type ?b2) (failures ?s2 ?b2)
       \<in> set (emitted (processQueue ?s2))"
    by blast
  then have r7: "BroadcastMaxRetriesExceeded ''b1'' ''event'' 1 \<in> set (emitted (processQueue ?s2))"
    by (simp add: fl2b fields)
  \<comment> \<open>a sweep with no failure: two clients, both sockets open\<close>
  let ?c = "exampleBroadcast ''b1'' [''c1'', ''c3'']"
  have q3: "messageQueue twoClients = [(''b1'', ?c)]" by (rule twoClients_fields(1))
  have keys3: "distinct (map fst (messageQueue twoClients))" by (simp add: q3)
  have queued3: "map_of (messageQueue twoClients) ''b1'' = Some ?c" by (simp add: q3)
  have e1: "deliverable twoClients (Json ''{}'') ''c1''"
    and e3: "deliverable twoClients (Json ''{}'') ''c3''"
    by (simp_all add: deliverable_def twoClients_fields openSocket_def)
  have cf: "b_data ?c = Json ''{}''" "b_type ?c = ''event''" "targetClients ?c = [''c1'', ''c3'']"
    by (simp_all add: exampleBroadcast_def)
  have fl3: "failures twoClients ?c = 0" and su3: "successes twoClients ?c = 2"
    using e1 e3 by (simp_all add: failures_def successes_def cf)
  note T3 = retry_until_maxRetries[OF keys3 queued3, of ?ts "''c2''"]
  from T3 fl3 have "map_of (messageQueue (processQueue twoClients)) ''b1'' =
           (if failures twoClients ?c = 0 then None
            else if countGe (Suc (retryCount ?c)) (b_maxRetries ?c) then None
            else Some (?c\<lparr>retryCount := Suc (retryCount ?c)\<rparr>))"
    and "BroadcastCompleted ''b1'' (b_type ?c) (successes twoClients ?c)
           \<in> set (emitted (processQueue twoClients))"
    by blast+
  then have r8: "map_of (messageQueue (processQueue twoClients)) ''b1'' = None"
    and r9: "BroadcastCompleted ''b1'' ''event'' 2 \<in> set (emitted (processQueue twoClients))"
    by (simp_all add: fl3 su3 cf)
  show ?thesis
    by (intro conjI) (rule keys q d1 d2 d3 R(1) r2 r3 r4 r5 r6 fl2 r7 q3 fl3 r8 r9)+
qed

text \<open>C5, as stated, fails: the constructor stores any number it is given, and
  \<open>addToQueue\<close> refuses only when \<open>size >= maxQueueSize\<close>. With \<open>maxQueueSize\<close> 1.5 two
  broadcasts are queued, and 2 exceeds 1.5; with \<open>maxQueueSize\<close> -1 the empty queue of the new
  broadcaster already exceeds it.\<close>

theorem queue_exceeds_fractional_maxQueueSize:
  "maxQueueSize (run [Broadcast ''b1'' ''event'' (Json ''{}''), Broadcast ''b2'' ''event'' (Json ''{}'')]
      (newBroadcaster (Some (Num (3 / 2))) None 0)) = Num (3 / 2)
   \<and> getQueueSize (run [Broadcast ''b1'' ''event'' (Json ''{}''), Broadcast ''b2'' ''event'' (Json ''{}'')]
      (newBroadcaster (Some (Num (3 / 2))) None 0)) = 2
   \<and> \<not> countLe
        (getQueueSize (run [Broadcast ''b1'' ''event'' (Json ''{}''), Broadcast ''b2'' ''event'' (Json ''{}'')]
           (newBroadcaster (Some (Num (3 / 2))) None 0)))
        (maxQueueSize (run [Broadcast ''b1'' ''event'' (Json ''{}''), Broadcast ''b2'' ''event'' (Json ''{}'')]
           (newBroadcaster (Some (Num (3 / 2))) None 0)))
   \<and> maxQueueSize (newBroadcaster (Some (Num (- 1))) None 0) = Num (- 1)
   \<and> \<not> countLe (getQueueSize (newBroadcaster (Some (Num (- 1))) None 0))
        (maxQueueSize (newBroadcaster (Some (Num (- 1))) None 0))"
  by (simp add: broadcaster_defs countGe_def countLe_def)

text \<open>C5, amended: for a broadcaster whose configured \<open>maxQueueSize\<close> is a natural number (an
  absent option and 0 give 1000), after every sequence of operations the queue holds at most
  \<open>maxQueueSize\<close> broadcasts; for any finite \<open>maxQueueSize\<close> it holds at most the least natural
  number that is at least \<open>maxQueueSize\<close>. When it holds \<open>maxQueueSize - 1\<close>, \<open>addToQueue\<close>
  succeeds and \<open>broadcast\<close> queues its broadcast (notification \<open>broadcast:queued\<close>). When it
  holds \<open>maxQueueSize\<close>, \<open>addToQueue\<close> returns false and leaves the state as it is (nothing
  is evicted, nothing is added), and \<open>broadcast\<close> notifies its caller in the same call with
  \<open>broadcast:queue-full\<close>, carrying the broadcast id and the type.\<close>

theorem queue_never_exceeds_maxQueueSize:
  "countLe
     (getQueueSize (run ops
        (newBroadcaster (map_option (\<lambda>n. Num (of_nat n)) optSize) optMaxRetries clock)))
     (maxQueueSize (run ops
        (newBroadcaster (map_option (\<lambda>n. Num (of_nat n)) optSize) optMaxRetries clock)))
   \<and> (maxQueueSize (run ops (newBroadcaster optMaxQueueSize optMaxRetries clock)) = Num r \<longrightarrow>
        int (getQueueSize (run ops (newBroadcaster optMaxQueueSize optMaxRetries clock)))
          \<le> max 0 \<lceil>r\<rceil>)
   \<and> (maxQueueSize s = Num (of_nat (Suc (getQueueSize s))) \<longrightarrow>
        fst (addToQueue bcast s)
      \<and> map_of (messageQueue (snd (addToQueue bcast s))) (b_id bcast) = Some bcast
      \<and> map_of (messageQueue (snd (broadcast broadcastId type data s))) broadcastId \<noteq> None
      \<and> emitted (snd (broadcast broadcastId type data s)) =
          emitted s @ [BroadcastQueued broadcastId type (length (newSet (getClientIds s)))])
   \<and> (maxQueueSize s = Num (of_nat (getQueueSize s)) \<longrightarrow>
        addToQueue bcast s = (False, s)
      \<and> broadcast broadcastId type data s =
          (broadcastId, emit (BroadcastQueueFull broadcastId type) s)
      \<and> messageQueue (snd (broadcast broadcastId type data s)) = messageQueue s)"
proof (intro conjI impI)
  define s0 where
    "s0 = newBroadcaster (map_option (\<lambda>n. Num (of_nat n)) optSize) optMaxRetries clock"
  define cap :: nat where
    "cap = (case optSize of None \<Rightarrow> 1000 | Some n \<Rightarrow> if n = 0 then 1000 else n)"
  have m0: "maxQueueSize s0 = Num (of_nat cap)"
    by (cases optSize) (simp_all add: s0_def cap_def newBroadcaster_def orDefault_def)
  have inv: "queueInv (run ops s0)"
    unfolding s0_def by (rule run_inv[OF newBroadcaster_inv])
  have m: "maxQueueSize (run ops s0) = Num (of_nat cap)"
    unfolding s0_def using run_maxQueueSize[OF newBroadcaster_inv] m0 by (simp add: s0_def)
  have "int (getQueueSize (run ops s0)) \<le> max 0 (int cap)"
    using inv by (simp add: queueInv_def withinCapacity_def m)
  then have "countLe (getQueueSize (run ops s0)) (maxQueueSize (run ops s0))"
    by (simp add: m)
  then show "countLe
     (getQueueSize (run ops
        (newBroadcaster (map_option (\<lambda>n. Num (of_nat n)) optSize) optMaxRetries clock)))
     (maxQueueSize (run ops
        (newBroadcaster (map_option (\<lambda>n. Num (of_nat n)) optSize) optMaxRetries clock)))"
    by (simp only: s0_def)
next
  assume r: "maxQueueSize (run ops (newBroadcaster optMaxQueueSize optMaxRetries clock)) = Num r"
  have "queueInv (run ops (newBroadcaster optMaxQueueSize optMaxRetries clock))"
    by (rule run_inv[OF newBroadcaster_inv])
  then show "int (getQueueSize (run ops (newBroadcaster optMaxQueueSize optMaxRetries clock)))
          \<le> max 0 \<lceil>r\<rceil>"
    by (simp add: queueInv_def withinCapacity_def r)
next
  assume a: "maxQueueSize s = Num (of_nat (Suc (getQueueSize s)))"
  then have lt: "\<not> countGe (getQueueSize s) (maxQueueSize s)" by simp
  show "fst (addToQueue bcast s)" using lt by (simp add: addToQueue_def)
  show "map_of (messageQueue (snd (addToQueue bcast s))) (b_id bcast) = Some bcast"
    using lt by (simp add: addToQueue_def emit_def update_conv')
  show "map_of (messageQueue (snd (broadcast broadcastId type data s))) broadcastId \<noteq> None"
    using lt by (simp add: broadcast_def addToQueue_def emit_def update_conv' Let_def)
  show "emitted (snd (broadcast broadcastId type data s)) =
          emitted s @ [BroadcastQueued broadcastId type (length (newSet (getClientIds s)))]"
    using lt by (simp add: broadcast_def addToQueue_def emit_def Let_def)
next
  assume a: "maxQueueSize s = Num (of_nat (getQueueSize s))"
  then have ge: "countGe (getQueueSize s) (maxQueueSize s)" by simp
  show "addToQueue bcast s = (False, s)" using ge by (simp add: addToQueue_def)
  show "broadcast broadcastId type data s =
          (broadcastId, emit (BroadcastQueueFull broadcastId type) s)"
    using ge by (simp add: broadcast_def addToQueue_def Let_def)
  show "messageQueue (snd (broadcast broadcastId type data s)) = messageQueue s"
    using ge by (simp add: broadcast_def addToQueue_def Let_def emit_def)
qed

theorem queue_never_exceeds_maxQueueSize_witness:
  "countLe
     (getQueueSize (run [Broadcast ''b1'' ''event'' (Json ''{}''), Broadcast ''b2'' ''event'' (Json ''{}'')]
        (newBroadcaster (Some (Num 1)) None 0))) (Num 1)
   \<and> maxQueueSize (run [Broadcast ''b1'' ''event'' (Json ''{}''), Broadcast ''b2'' ''event'' (Json ''{}'')]
        (newBroadcaster (Some (Num (3 / 2))) None 0)) = Num (3 / 2)
   \<and> int (getQueueSize (run [Broadcast ''b1'' ''event'' (Json ''{}''), Broadcast ''b2'' ''event'' (Json ''{}'')]
        (newBroadcaster (Some (Num (3 / 2))) None 0))) \<le> 2
   \<and> maxQueueSize (newBroadcaster (Some (Num 1)) None 0) =
       Num (of_nat (Suc (getQueueSize (newBroadcaster (Some (Num 1)) None 0))))
   \<and> fst (addToQueue (exampleBroadcast ''b1'' []) (newBroadcaster (Some (Num 1)) None 0))
   \<and> maxQueueSize (run [Broadcast ''b1'' ''event'' (Json ''{}'')] (newBroadcaster (Some (Num 1)) None 0)) =
       Num (of_nat (getQueueSize
         (run [Broadcast ''b1'' ''event'' (Json ''{}'')] (newBroadcaster (Some (Num 1)) None 0))))
   \<and> map fst (messageQueue (snd (broadcast ''b2'' ''event'' (Json ''{}'')
        (run [Broadcast ''b1'' ''event'' (Json ''{}'')] (newBroadcaster (Some (Num 1)) None 0))))) = [''b1'']"
proof -
  let ?ops = "[Broadcast ''b1'' ''event'' (Json ''{}''), Broadcast ''b2'' ''event'' (Json ''{}'')]"
  let ?s0 = "newBroadcaster (Some (Num 1)) None 0"
  let ?s1 = "run [Broadcast ''b1'' ''event'' (Json ''{}'')] ?s0"
  let ?f0 = "newBroadcaster (Some (Num (3 / 2))) None 0"
  have cfg: "map_option (\<lambda>n. Num (of_nat n)) (Some (1 :: nat)) = Some (Num 1)" by simp
  have m: "maxQueueSize (run ?ops ?s0) = Num 1"
    by (simp add: broadcaster_defs countGe_def)
  have mf: "maxQueueSize (run ?ops ?f0) = Num (3 / 2)"
    by (simp add: broadcaster_defs countGe_def)
  have h0: "maxQueueSize ?s0 = Num (of_nat (Suc (getQueueSize ?s0)))"
    by (simp add: broadcaster_defs)
  have h1: "maxQueueSize ?s1 = Num (of_nat (getQueueSize ?s1))"
    by (simp add: broadcaster_defs countGe_def)
  have q1: "map fst (messageQueue ?s1) = [''b1'']" by (simp add: broadcaster_defs countGe_def)
  note A = queue_never_exceeds_maxQueueSize[of ?ops "Some 1" None 0 "Some (Num (3 / 2))" "3 / 2"
      ?s0 "exampleBroadcast ''b1'' []" "''b1''" "''event''" "Json ''{}''"]
  note B = queue_never_exceeds_maxQueueSize[of "[]" None None 0 None 0 ?s1
      "exampleBroadcast ''b2'' []" "''b2''" "''event''" "Json ''{}''"]
  have a1: "countLe (getQueueSize (run ?ops ?s0)) (Num 1)"
    using A[THEN conjunct1] by (simp only: cfg m)
  have c: "\<lceil>3 / 2 :: rat\<rceil> = 2" by (simp add: ceiling_eq_iff)
  have a2: "int (getQueueSize (run ?ops ?f0)) \<le> 2"
    using A[THEN conjunct2, THEN conjunct1] mf c by simp
  have a3: "fst (addToQueue (exampleBroadcast ''b1'' []) ?s0)"
    using A h0 by blast
  from B h1 have b: "messageQueue (snd (broadcast ''b2'' ''event'' (Json ''{}'') ?s1)) = messageQueue ?s1"
    by blast
  have b': "map fst (messageQueue (snd (broadcast ''b2'' ''event'' (Json ''{}'') ?s1))) = [''b1'']"
    by (simp only: b q1)
  show ?thesis by (intro conjI) (rule a1 mf a2 h0 a3 h1 b')+
qed

text \<open>C6: when no id of the list given to \<open>broadcastToClients\<close> is registered, the call
  returns the generated broadcast id, queues nothing and sends nothing (the registry, with
  every socket's messages, is unchanged); its only effect is the \<open>broadcast:no-targets\<close>
  notification.\<close>

theorem broadcastToClients_without_targets:
  assumes "filter (\<lambda>i. map_of (clients s) i \<noteq> None) clientIds = []"
  shows "broadcastToClients broadcastId clientIds type data s =
           (broadcastId, emit (BroadcastNoTargets broadcastId type) s)
       \<and> messageQueue (snd (broadcastToClients broadcastId clientIds type data s)) = messageQueue s
       \<and> clients (snd (broadcastToClients broadcastId clientIds type data s)) = clients s
       \<and> emitted (snd (broadcastToClients broadcastId clientIds type data s)) =
           emitted s @ [BroadcastNoTargets broadcastId type]"
  using assms by (simp add: broadcastToClients_def newSet_def emit_def)

theorem broadcastToClients_without_targets_witness:
  "filter (\<lambda>i. map_of (clients (newBroadcaster None None 0)) i \<noteq> None) [''ghost''] = []
   \<and> broadcastToClients ''b1'' [''ghost''] ''event'' (Json ''{}'') (newBroadcaster None None 0) =
       (''b1'', emit (BroadcastNoTargets ''b1'' ''event'') (newBroadcaster None None 0))
   \<and> messageQueue (snd (broadcastToClients ''b1'' [''ghost''] ''event'' (Json ''{}'')
        (newBroadcaster None None 0))) = []"
proof -
  have h: "filter (\<lambda>i. map_of (clients (newBroadcaster None None 0)) i \<noteq> None) [''ghost''] = []"
    by (simp add: broadcaster_defs)
  have q: "messageQueue (newBroadcaster None None 0) = []" by (simp add: broadcaster_defs)
  note R = broadcastToClients_without_targets[OF h, of "''b1''" "''event''" "Json ''{}''"]
  have r1: "broadcastToClients ''b1'' [''ghost''] ''event'' (Json ''{}'') (newBroadcaster None None 0) =
       (''b1'', emit (BroadcastNoTargets ''b1'' ''event'') (newBroadcaster None None 0))"
    by (rule R[THEN conjunct1])
  have r2: "messageQueue (snd (broadcastToClients ''b1'' [''ghost''] ''event'' (Json ''{}'')
        (newBroadcaster None None 0))) = []"
    using R[THEN conjunct2, THEN conjunct1] by (simp only: q)
  show ?thesis by (intro conjI) (rule h r1 r2)+
qed

text \<open>C8: for a registered client id, \<open>unregisterClient\<close> returns true and \<open>getClient\<close> on
  the same id is then absent (\<open>null\<close>); a second \<open>unregisterClient\<close> of the id returns
  false.\<close>

theorem unregister_then_getClient_absent:
  assumes "map_of (clients s) ident \<noteq> None"
  shows "fst (unregisterClient ident s) = True
       \<and> getClient ident (snd (unregisterClient ident s)) = None
       \<and> fst (unregisterClient ident (snd (unregisterClient ident s))) = False"
  using assms
  by (auto simp: unregisterClient_def getClient_def emit_def delete_conv')

theorem unregister_then_getClient_absent_witness:
  "map_of (clients (registerClient ''c1'' openSocket None (newBroadcaster None None 0))) ''c1'' \<noteq> None
   \<and> fst (unregisterClient ''c1'' (registerClient ''c1'' openSocket None (newBroadcaster None None 0))) = True
   \<and> getClient ''c1'' (snd (unregisterClient ''c1''
        (registerClient ''c1'' openSocket None (newBroadcaster None None 0)))) = None
   \<and> fst (unregisterClient ''c1'' (snd (unregisterClient ''c1''
        (registerClient ''c1'' openSocket None (newBroadcaster None None 0))))) = False"
proof -
  have h: "map_of (clients (registerClient ''c1'' openSocket None (newBroadcaster None None 0))) ''c1'' \<noteq> None"
    by (simp add: broadcaster_defs)
  from unregister_then_getClient_absent[OF h] h show ?thesis by simp
qed

text \<open>C9: \<open>closeAll\<close> empties the registry and stops the queue processing, and leaves the
  message queue as it is: every pending broadcast is still queued, and \<open>getQueueSize\<close> is
  unchanged.\<close>

theorem closeAll_keeps_messageQueue:
  "messageQueue (closeAll code reason s) = messageQueue s
   \<and> getQueueSize (closeAll code reason s) = getQueueSize s
   \<and> clients (closeAll code reason s) = []
   \<and> queueProcessingInterval (closeAll code reason s) = None"
  by (simp add: closeAll_def stopQueueProcessing_def emit_def getQueueSize_def Let_def
      split: option.splits)

text \<open>C10: with no client registered and room in the queue, \<open>broadcast\<close> still queues a
  broadcast, with an empty target set: it takes one slot of the queue and is announced by
  \<open>broadcast:queued\<close> with target count 0, not by \<open>broadcast:no-targets\<close>. The next sweep
  removes it and emits \<open>broadcast:completed\<close> with \<open>sentCount\<close> 0. In the same state
  \<open>broadcastToClients\<close>, whatever the id list, queues nothing and emits
  \<open>broadcast:no-targets\<close>. (The generated id is taken to be new to the queue.)\<close>

theorem broadcast_without_clients:
  assumes none: "clients s = []"
    and room: "\<not> countGe (getQueueSize s) (maxQueueSize s)"
    and keys: "distinct (map fst (messageQueue s))"
    and fresh: "broadcastId \<notin> fst ` set (messageQueue s)"
  shows "fst (broadcast broadcastId type data s) = broadcastId
       \<and> messageQueue (snd (broadcast broadcastId type data s)) =
           messageQueue s @
           [(broadcastId,
             \<lparr>b_id = broadcastId, b_type = type, b_data = data, b_timestamp = None,
              targetClients = [], retryCount = 0, b_maxRetries = maxRetries s\<rparr>)]
       \<and> getQueueSize (snd (broadcast broadcastId type data s)) = Suc (getQueueSize s)
       \<and> emitted (snd (broadcast broadcastId type data s)) =
           emitted s @ [BroadcastQueued broadcastId type 0]
       \<and> map_of (messageQueue (processQueue (snd (broadcast broadcastId type data s)))) broadcastId = None
       \<and> BroadcastCompleted broadcastId type 0
           \<in> set (emitted (processQueue (snd (broadcast broadcastId type data s))))
       \<and> broadcastToClients broadcastId clientIds type data s =
           (broadcastId, emit (BroadcastNoTargets broadcastId type) s)"
proof -
  define b where "b = \<lparr>b_id = broadcastId, b_type = type, b_data = data, b_timestamp = None,
              targetClients = [], retryCount = 0, b_maxRetries = maxRetries s\<rparr>"
  define s1 where "s1 = snd (broadcast broadcastId type data s)"
  note lt = room
  have s1: "s1 = emit (BroadcastQueued broadcastId type 0) (s\<lparr>messageQueue := messageQueue s @ [(broadcastId, b)]\<rparr>)"
    unfolding s1_def b_def using lt
    by (simp add: broadcast_def addToQueue_def Let_def getClientIds_def newSet_def none
        update_fresh[OF fresh])
  have q1: "messageQueue s1 = messageQueue s @ [(broadcastId, b)]"
    by (simp add: s1 emit_def)
  have e1: "emitted s1 = emitted s @ [BroadcastQueued broadcastId type 0]"
    by (simp add: s1 emit_def)
  have d1: "distinct (map fst (messageQueue s1))"
    using keys fresh by (simp add: q1)
  have found: "map_of (messageQueue s1) broadcastId = Some b"
    using map_of_mid[OF fresh, of b "[]"] by (simp only: q1)
  have tally: "failures s1 b = 0" "successes s1 b = 0"
    using failures_no_targets[of b s1] by (simp_all add: b_def)
  have gone: "map_of (messageQueue (processQueue s1)) broadcastId = None"
    by (simp add: processQueue_entry[OF d1] found tally)
  have "BroadcastCompleted broadcastId type 0 \<in> set (sweepNotices s1 (broadcastId, b))"
    by (simp add: sweepNotices_def tally) (simp add: b_def)
  moreover have "(broadcastId, b) \<in> set (messageQueue s1)" by (simp add: q1)
  ultimately have completed: "BroadcastCompleted broadcastId type 0 \<in> set (emitted (processQueue s1))"
    using processQueue_notices[OF d1] by blast
  have nt: "broadcastToClients broadcastId clientIds type data s =
           (broadcastId, emit (BroadcastNoTargets broadcastId type) s)"
    by (simp add: broadcastToClients_def newSet_def none)
  have r: "fst (broadcast broadcastId type data s) = broadcastId"
    by (simp add: broadcast_def Let_def split_beta)
  have sz: "getQueueSize s1 = Suc (getQueueSize s)"
    by (simp add: getQueueSize_def q1)
  show ?thesis
    using r q1 sz e1 gone completed nt unfolding s1_def b_def by blast
qed

theorem broadcast_without_clients_witness:
  "clients (newBroadcaster None None 0) = []
   \<and> \<not> countGe (getQueueSize (newBroadcaster None None 0))
        (maxQueueSize (newBroadcaster None None 0))
   \<and> distinct (map fst (messageQueue (newBroadcaster None None 0)))
   \<and> ''b1'' \<notin> fst ` set (messageQueue (newBroadcaster None None 0))
   \<and> getQueueSize (snd (broadcast ''b1'' ''event'' (Json ''{}'') (newBroadcaster None None 0))) = 1
   \<and> messageQueue (processQueue (snd (broadcast ''b1'' ''event'' (Json ''{}'')
        (newBroadcaster None None 0)))) = []
   \<and> BroadcastCompleted ''b1'' ''event'' 0
       \<in> set (emitted (processQueue (snd (broadcast ''b1'' ''event'' (Json ''{}'')
            (newBroadcaster None None 0)))))"
proof -
  let ?s = "newBroadcaster None None 0"
  have h1: "clients ?s = []" by (simp add: broadcaster_defs)
  have h2: "\<not> countGe (getQueueSize ?s) (maxQueueSize ?s)"
    by (simp add: broadcaster_defs countGe_def)
  have h3: "distinct (map fst (messageQueue ?s))" by (simp add: broadcaster_defs)
  have h4: "''b1'' \<notin> fst ` set (messageQueue ?s)" by (simp add: broadcaster_defs)
  note R = broadcast_without_clients[OF h1 h2 h3 h4, of "''event''" "Json ''{}''" "[]"]
  have r1: "getQueueSize (snd (broadcast ''b1'' ''event'' (Json ''{}'') ?s)) = 1"
    using R by (simp add: broadcaster_defs)
  have r2: "messageQueue (processQueue (snd (broadcast ''b1'' ''event'' (Json ''{}'') ?s))) = []"
    by (simp add: broadcaster_defs processQueue_def processBroadcast_def)
  have r3: "BroadcastCompleted ''b1'' ''event'' 0
       \<in> set (emitted (processQueue (snd (broadcast ''b1'' ''event'' (Json ''{}'') ?s))))"
    using R by blast
  show ?thesis by (intro conjI) (rule h1 h2 h3 h4 r1 r2 r3)+
qed

section \<open>Properties of the risk engine\<close>

text \<open>C2: the score of \<open>evaluateEvent\<close> is clamped to \<open>[0, 1]\<close> and the level is the
  threshold bucket of the clamped score, and for an event with an amount the result is the
  mean over the present factors, as the spec words it. But \<open>evaluateEvent\<close> passes
  \<open>eventData.amount ?? 0\<close> to \<open>evaluateAmount\<close>, so an event without \<open>amount\<close> is scored
  exactly as the same event with amount 0: the amount factor is present, in the numerator
  and in the denominator. At the input without amount, with program id \<open>unknown\<close> and event
  type \<open>flash_loan\<close>, the code has three factors, score 0.555 and level MEDIUM, where the
  mean over the present factors, as the spec words it, has two factors, score 0.75 and level
  HIGH.\<close>

theorem absent_amount_scored_as_zero:
  "0 \<le> rs_score (evaluateEvent e clock) \<and> rs_score (evaluateEvent e clock) \<le> 1
   \<and> rs_level (evaluateEvent e clock) = scoreToLevel (rs_score (evaluateEvent e clock))
   \<and> evaluateEvent (e\<lparr>amount := Some a\<rparr>) clock = evaluateEvent_spec (e\<lparr>amount := Some a\<rparr>) clock
   \<and> evaluateEvent (e\<lparr>amount := None\<rparr>) clock = evaluateEvent (e\<lparr>amount := Some 0\<rparr>) clock
   \<and> map rf_name (rs_factors (evaluateEvent
        (e\<lparr>amount := None, programId := Some ''unknown'', eventType := ''flash_loan''\<rparr>) clock)) =
       [''Amount Risk'', ''Program Risk'', ''Event Type Risk'']
   \<and> rs_score (evaluateEvent
        (e\<lparr>amount := None, programId := Some ''unknown'', eventType := ''flash_loan''\<rparr>) clock) =
       111 / 200
   \<and> rs_level (evaluateEvent
        (e\<lparr>amount := None, programId := Some ''unknown'', eventType := ''flash_loan''\<rparr>) clock) =
       MEDIUM
   \<and> map rf_name (rs_factors (evaluateEvent_spec
        (e\<lparr>amount := None, programId := Some ''unknown'', eventType := ''flash_loan''\<rparr>) clock)) =
       [''Program Risk'', ''Event Type Risk'']
   \<and> rs_score (evaluateEvent_spec
        (e\<lparr>amount := None, programId := Some ''unknown'', eventType := ''flash_loan''\<rparr>) clock) =
       3 / 4
   \<and> rs_level (evaluateEvent_spec
        (e\<lparr>amount := None, programId := Some ''unknown'', eventType := ''flash_loan''\<rparr>) clock) =
       HIGH"
proof -
  note clamped = evaluateEvent_clamped[of e clock]
  have present: "evaluateEvent (e\<lparr>amount := Some a\<rparr>) clock =
      evaluateEvent_spec (e\<lparr>amount := Some a\<rparr>) clock"
    by (simp add: evaluateEvent_def evaluateEvent_spec_def)
  have "evaluateEvent (e\<lparr>amount := None\<rparr>) clock = evaluateEvent (e\<lparr>amount := Some 0\<rparr>) clock
   \<and> map rf_name (rs_factors (evaluateEvent
        (e\<lparr>amount := None, programId := Some ''unknown'', eventType := ''flash_loan''\<rparr>) clock)) =
       [''Amount Risk'', ''Program Risk'', ''Event Type Risk'']
   \<and> rs_score (evaluateEvent
        (e\<lparr>amount := None, programId := Some ''unknown'', eventType := ''flash_loan''\<rparr>) clock) =
       111 / 200
   \<and> rs_level (evaluateEvent
        (e\<lparr>amount := None, programId := Some ''unknown'', eventType := ''flash_loan''\<rparr>) clock) =
       MEDIUM
   \<and> map rf_name (rs_factors (evaluateEvent_spec
        (e\<lparr>amount := None, programId := Some ''unknown'', eventType := ''flash_loan''\<rparr>) clock)) =
       [''Program Risk'', ''Event Type Risk'']
   \<and> rs_score (evaluateEvent_spec
        (e\<lparr>amount := None, programId := Some ''unknown'', eventType := ''flash_loan''\<rparr>) clock) =
       3 / 4
   \<and> rs_level (evaluateEvent_spec
        (e\<lparr>amount := None, programId := Some ''unknown'', eventType := ''flash_loan''\<rparr>) clock) =
       HIGH"
    by (simp add: risk_defs evaluateEvent_spec_def lower_unknown)
  with clamped present show ?thesis by blast
qed

text \<open>C3: the spec's test expects, for amount 0, program id \<open>unknown\<close> and event type
  \<open>flash_loan\<close>, a score of at least 0.7 and level HIGH or CRITICAL. \<open>evaluateAmount\<close> has a
  branch of its own for amount 0, commented \<open>Suspicious: zero amount\<close>, but the value it
  assigns there is 0.1, the value of the fallback branch commented
  \<open>Low risk: normal amount\<close>: a zero amount is valued like a normal one. At that input
  the code's weighted mean is \<open>0.1 \<cdot> 0.3 + 0.7 \<cdot> 0.35 + 0.8 \<cdot> 0.35 = 0.555\<close>, below 0.7, and
  the level is MEDIUM, neither HIGH nor CRITICAL.\<close>

theorem zero_amount_valued_as_normal:
  "map_option rf_value (evaluateAmount (Some 0)) = Some (1 / 10)
   \<and> map_option rf_value (evaluateAmount (Some 1)) = Some (1 / 10)
   \<and> rs_score (evaluateEvent flashLoanEvent 0) = 111 / 200
   \<and> rs_score (evaluateEvent flashLoanEvent 0) < 7 / 10
   \<and> rs_level (evaluateEvent flashLoanEvent 0) = MEDIUM"
  by (simp add: risk_defs flashLoanEvent_def lower_unknown)

section \<open>Properties of the event normalizer\<close>




end
